theory Spec2Isabelle
  imports Main "HOL-Library.Word"
begin

unbundle bit_operations_syntax

text \<open>
  A model of the MaxScale CDC connector (\<open>cdc_connector.h\<close>, \<open>cdc_connector.cpp\<close>): the
  JSON values it receives, the \<open>Connection\<close> with its registry of field names and types, the
  \<open>InternalRow\<close> behind a \<open>Row\<close>, and every member function of \<open>Connection\<close> as a function from
  the state before the call to the result and the state after it. Undefined behaviour of
  the C++ code is the result \<open>None\<close>. The model comes first, then the notions and lemmas the
  properties need, then the properties, C1 to C10.
\<close>

section \<open>Strings and bytes\<close>

text \<open>
  A \<open>std::string\<close> is a list of bytes that may hold NUL bytes. A \<open>const char*\<close> that is
  read as a C string (converted to \<open>std::string\<close>, appended with \<open>+=\<close>, or inserted into a
  stream with \<open>operator<<\<close>) denotes the bytes before the first NUL.
\<close>

definition NUL :: char where
  "NUL = CHR 0x00"

definition cstring :: "string \<Rightarrow> string" where
  "cstring bytes = takeWhile (\<lambda>ch. ch \<noteq> NUL) bytes"

section \<open>JSON values (the jansson value tree)\<close>

text \<open>
  The value tree built by the JSON library. \<open>JSON_INTEGER\<close> holds a \<open>json_int_t\<close>
  (\<open>long long\<close>), \<open>JSON_REAL\<close> the 64 bits of a \<open>double\<close>. An object is a table of
  key/value pairs looked up by key. A \<open>json_t*\<close> that can be \<open>NULL\<close> is a \<open>json option\<close>.
\<close>

datatype json =
    JSON_OBJECT "(string \<times> json) list"
  | JSON_ARRAY "json list"
  | JSON_STRING string
  | JSON_INTEGER "64 word"
  | JSON_REAL "64 word"
  | JSON_TRUE
  | JSON_FALSE
  | JSON_NULL

text \<open>\<open>json_object_get\<close>: the value stored under the key, \<open>NULL\<close> when the value is not an
  object or has no such key.\<close>

fun json_object_get :: "json \<Rightarrow> string \<Rightarrow> json option" where
  "json_object_get (JSON_OBJECT kvs) key = map_of kvs key"
| "json_object_get _ key = None"

fun json_is_array :: "json \<Rightarrow> bool" where
  "json_is_array (JSON_ARRAY es) = True"
| "json_is_array _ = False"

fun json_is_string :: "json \<Rightarrow> bool" where
  "json_is_string (JSON_STRING s) = True"
| "json_is_string _ = False"

text \<open>\<open>json_array_size\<close> is 0 for a value that is not an array.\<close>

fun json_array_size :: "json \<Rightarrow> nat" where
  "json_array_size (JSON_ARRAY es) = length es"
| "json_array_size _ = 0"

text \<open>\<open>json_array_get\<close> is \<open>NULL\<close> for a value that is not an array and for an index out of
  range.\<close>

fun json_array_get :: "json \<Rightarrow> nat \<Rightarrow> json option" where
  "json_array_get (JSON_ARRAY es) i = (if i < length es then Some (es ! i) else None)"
| "json_array_get _ i = None"

text \<open>\<open>json_string_value\<close>: a pointer to the bytes of a string value, \<open>NULL\<close> for any other
  value.\<close>

fun json_string_value :: "json \<Rightarrow> string option" where
  "json_string_value (JSON_STRING s) = Some s"
| "json_string_value _ = None"

text \<open>The elements \<open>json_array_foreach\<close> visits, in order: none when the pointer is \<open>NULL\<close> or
  the value is not an array.\<close>

fun json_array_elements :: "json option \<Rightarrow> json list" where
  "json_array_elements (Some (JSON_ARRAY es)) = es"
| "json_array_elements _ = []"

section \<open>Decimal text of an integer\<close>

text \<open>What \<open>ss << json_integer_value(json)\<close> inserts into the stream for a \<open>long long\<close>, in
  the classic locale: the decimal digits, with a leading minus sign for a negative value.\<close>

definition digit_char :: "nat \<Rightarrow> char" where
  "digit_char d = ''0123456789'' ! d"

function decimal_digits :: "nat \<Rightarrow> string" where
  "decimal_digits n =
     (if n < 10 then [digit_char n] else decimal_digits (n div 10) @ [digit_char (n mod 10)])"
  by pat_completeness auto
termination
  by (relation "measure (\<lambda>n. n)") auto

declare decimal_digits.simps [simp del]

definition integer_text :: "int \<Rightarrow> string" where
  "integer_text i = (if i < 0 then CHR ''-'' # decimal_digits (nat (- i)) else decimal_digits (nat i))"

section \<open>External capabilities\<close>

text \<open>
  The library functions the connector calls and whose code is outside the repository:
  the JSON parser (\<open>json_loads\<close> with flag \<open>JSON_ALLOW_NUL\<close>: the parsed value, or the text of
  the parse error), the textual form the stream gives a \<open>double\<close>, and the SHA-1 digest.
\<close>

record externals =
  json_loads :: "string \<Rightarrow> string + json"
  real_text :: "64 word \<Rightarrow> string"
  SHA1 :: "8 word list \<Rightarrow> 8 word list"

section \<open>json_to_string\<close>

fun json_to_string :: "externals \<Rightarrow> json \<Rightarrow> string" where
  "json_to_string ext (JSON_STRING s) = cstring s"
| "json_to_string ext (JSON_INTEGER i) = integer_text (sint i)"
| "json_to_string ext (JSON_REAL r) = real_text ext r"
| "json_to_string ext JSON_TRUE = ''true''"
| "json_to_string ext JSON_FALSE = ''false''"
| "json_to_string ext JSON_NULL = ''''"
| "json_to_string ext _ = ''''"

section \<open>InternalRow\<close>

text \<open>A \<open>Row\<close> is a shared pointer to an \<open>InternalRow\<close>; the null pointer is \<open>None\<close>. The
  three vectors are members held by value: the constructor copies its arguments.\<close>

record InternalRow =
  row_keys :: "string list"
  row_types :: "string list"
  row_values :: "string list"

type_synonym Row = "InternalRow option"

definition fieldCount :: "InternalRow \<Rightarrow> nat" where
  "fieldCount r = length (row_values r)"

text \<open>\<open>std::find\<close> over a vector, as the distance of the returned iterator from \<open>begin()\<close>: the
  index of the first equal element, the size of the vector when there is none.\<close>

fun find_distance :: "string list \<Rightarrow> string \<Rightarrow> nat" where
  "find_distance [] str = 0"
| "find_distance (k # ks) str = (if k = str then 0 else Suc (find_distance ks str))"

text \<open>\<open>m_values[i]\<close>: reading at an index that is not below the size of the vector is out of
  bounds, which is \<open>None\<close> here.\<close>

definition value_at :: "InternalRow \<Rightarrow> nat \<Rightarrow> string option" where
  "value_at r i = (if i < length (row_values r) then Some (row_values r ! i) else None)"

definition value_of :: "InternalRow \<Rightarrow> string \<Rightarrow> string option" where
  "value_of r str = value_at r (find_distance (row_keys r) str)"


section \<open>The Connection and its environment\<close>

text \<open>
  What the operating system and the peer do is not decided by the program: it is a script
  the model consumes. One event is the outcome of one wait for readiness followed, when the
  socket is ready, by one transfer (a transfer interrupted by a signal is retried by the
  code and is not an event of its own). A script that has run out is a peer that stays
  silent: every later wait times out.
\<close>

datatype 'a io_event =
    Transfer 'a \<comment> \<open>ready; bytes waiting to be read, or the number of bytes a write takes\<close>
  | Timeout \<comment> \<open>\<open>poll\<close> returns 0\<close>
  | Revents "16 word" \<comment> \<open>\<open>poll\<close> returns 1 with these \<open>revents\<close>; nothing to transfer\<close>
  | PollFail string \<comment> \<open>\<open>poll\<close> returns -1; the text of \<open>strerror_r\<close>\<close>
  | TransferFail string \<comment> \<open>ready, but the transfer fails; the text of \<open>strerror_r\<close>\<close>
  | WouldBlock \<comment> \<open>ready, but the transfer fails with \<open>EWOULDBLOCK\<close> or \<open>EAGAIN\<close>\<close>

datatype syscall =
    SYS_socket
  | SYS_connect int
  | SYS_fcntl int
  | SYS_poll int "16 word"
  | SYS_read int nat
  | SYS_write int string
  | SYS_close int

record Connection =
  m_fd :: int
  m_port :: "16 word"
  m_address :: string
  m_user :: string
  m_password :: string
  m_error :: string
  m_schema :: string
  m_keys :: "string list"
  m_types :: "string list"
  m_timeout :: int
  incoming :: "string io_event list" \<comment> \<open>environment: what reads will meet\<close>
  outgoing :: "nat io_event list" \<comment> \<open>environment: what writes will meet\<close>
  syscalls :: "syscall list" \<comment> \<open>environment: the system calls made so far\<close>
  errno_text :: string \<comment> \<open>environment: what \<open>strerror_r(errno, ...)\<close> returns\<close>

text \<open>The constructor: no socket yet, empty error, schema text and registry.\<close>

definition new_Connection ::
  "string \<Rightarrow> 16 word \<Rightarrow> string \<Rightarrow> string \<Rightarrow> int \<Rightarrow>
   string io_event list \<Rightarrow> nat io_event list \<Rightarrow> Connection" where
  "new_Connection address port user password timeout rx tx =
     \<lparr>m_fd = - 1, m_port = port, m_address = address, m_user = user, m_password = password,
      m_error = [], m_schema = [], m_keys = [], m_types = [], m_timeout = timeout,
      incoming = rx, outgoing = tx, syscalls = [], errno_text = []\<rparr>"

definition getSchema :: "Connection \<Rightarrow> string" where
  "getSchema c = m_schema c"

definition getError :: "Connection \<Rightarrow> string" where
  "getError c = m_error c"

section \<open>is_schema, processSchema, processRow\<close>

definition is_schema :: "json \<Rightarrow> bool" where
  "is_schema js =
     (case json_object_get js ''fields'' of
        None \<Rightarrow> False
      | Some j \<Rightarrow>
          if json_is_array j \<and> json_array_size j \<noteq> 0
          then (case json_array_get j 0 of
                  None \<Rightarrow> False
                | Some first \<Rightarrow> json_object_get first ''name'' \<noteq> None)
          else False)"

text \<open>
  The two strings the loop body of \<open>processSchema\<close> builds for one element of the array.
  \<open>nameval\<close> is constructed from \<open>json_string_value(name)\<close> whenever \<open>name\<close> is not \<open>NULL\<close>;
  for a \<open>name\<close> that is not a JSON string that pointer is \<open>NULL\<close>, and constructing a
  \<open>std::string\<close> from it is undefined: \<open>None\<close>.
\<close>

definition nameval :: "json \<Rightarrow> string option" where
  "nameval v =
     (case json_object_get v ''name'' of
        None \<Rightarrow> Some []
      | Some name \<Rightarrow>
          (case json_string_value name of None \<Rightarrow> None | Some p \<Rightarrow> Some (cstring p)))"

definition typeval :: "json \<Rightarrow> string" where
  "typeval v =
     (let type = (case json_object_get v ''real_type'' of
                    None \<Rightarrow> json_object_get v ''type''
                  | Some t \<Rightarrow> Some t)
      in case type of
           None \<Rightarrow> ''undefined''
         | Some t \<Rightarrow>
             (if json_is_string t
              then (case json_string_value t of Some p \<Rightarrow> cstring p | None \<Rightarrow> [])
              else ''char(50)''))"

fun processSchema_loop :: "json list \<Rightarrow> Connection \<Rightarrow> Connection option" where
  "processSchema_loop [] c = Some c"
| "processSchema_loop (v # vs) c =
     (case nameval v of
        None \<Rightarrow> None
      | Some n \<Rightarrow>
          processSchema_loop vs (c\<lparr>m_keys := m_keys c @ [n], m_types := m_types c @ [typeval v]\<rparr>))"

text \<open>\<open>processSchema\<close> clears both vectors and then appends one name and one type per
  element of \<open>"fields"\<close>. (The text \<open>json_dumps\<close> returns is not used.)\<close>

definition processSchema :: "json \<Rightarrow> Connection \<Rightarrow> Connection option" where
  "processSchema js c =
     processSchema_loop (json_array_elements (json_object_get js ''fields''))
       (c\<lparr>m_keys := [], m_types := []\<rparr>)"

text \<open>The loop of \<open>processRow\<close> over the keys still to visit: the values pushed so far and
  \<open>m_error\<close>. The key is passed to \<open>json_object_get\<close> as \<open>it->c_str()\<close>.\<close>

fun processRow_loop ::
  "externals \<Rightarrow> json \<Rightarrow> string list \<Rightarrow> string list \<Rightarrow> string \<Rightarrow> string list \<times> string" where
  "processRow_loop ext js [] vals err = (vals, err)"
| "processRow_loop ext js (k # ks) vals err =
     (case json_object_get js (cstring k) of
        Some v \<Rightarrow> processRow_loop ext js ks (vals @ [json_to_string ext v]) err
      | None \<Rightarrow> (vals, ''No value for key found: '' @ k))"

definition processRow :: "externals \<Rightarrow> json \<Rightarrow> Connection \<Rightarrow> Row \<times> Connection" where
  "processRow ext js c =
     (let c1 = c\<lparr>m_error := []\<rparr>;
          (vals, err) = processRow_loop ext js (m_keys c1) [] (m_error c1);
          c2 = c1\<lparr>m_error := err\<rparr>
      in if m_error c2 = []
         then (Some \<lparr>row_keys = m_keys c2, row_types = m_types c2, row_values = vals\<rparr>, c2)
         else (None, c2))"

section \<open>Waiting for the socket\<close>

text \<open>The event bits of \<open><poll.h>\<close> (their Linux values) and the macro \<open>is_poll_error\<close>.\<close>

definition POLLIN :: "16 word" where "POLLIN = 0x001"
definition POLLPRI :: "16 word" where "POLLPRI = 0x002"
definition POLLOUT :: "16 word" where "POLLOUT = 0x004"
definition POLLERR :: "16 word" where "POLLERR = 0x008"
definition POLLHUP :: "16 word" where "POLLHUP = 0x010"
definition POLLNVAL :: "16 word" where "POLLNVAL = 0x020"
definition POLLRDHUP :: "16 word" where "POLLRDHUP = 0x2000"

definition is_poll_error :: "16 word \<Rightarrow> bool" where
  "is_poll_error e = (e AND (POLLERR OR POLLHUP OR POLLNVAL) \<noteq> 0)"

definition event_to_string :: "16 word \<Rightarrow> string" where
  "event_to_string event =
     (if event AND POLLIN \<noteq> 0 then ''POLLIN '' else []) @
     (if event AND POLLPRI \<noteq> 0 then ''POLLPRI '' else []) @
     (if event AND POLLOUT \<noteq> 0 then ''POLLOUT '' else []) @
     (if event AND POLLRDHUP \<noteq> 0 then ''POLLRDHUP '' else []) @
     (if event AND POLLERR \<noteq> 0 then ''POLLERR '' else []) @
     (if event AND POLLHUP \<noteq> 0 then ''POLLHUP '' else []) @
     (if event AND POLLNVAL \<noteq> 0 then ''POLLNVAL '' else [])"

text \<open>The event a call meets: the head of the script, a timeout once the script is empty.\<close>

definition next_event :: "'a io_event list \<Rightarrow> 'a io_event" where
  "next_event q = (case q of [] \<Rightarrow> Timeout | e # es \<Rightarrow> e)"

text \<open>What \<open>poll\<close> returns under an event: its result, \<open>revents\<close>, and the error text.\<close>

fun poll_outcome :: "16 word \<Rightarrow> 'a io_event \<Rightarrow> int \<times> 16 word \<times> string" where
  "poll_outcome events (Transfer x) = (1, events, [])"
| "poll_outcome events Timeout = (0, 0, [])"
| "poll_outcome events (Revents r) = (1, r, [])"
| "poll_outcome events (PollFail e) = (- 1, 0, e)"
| "poll_outcome events (TransferFail e) = (1, events, [])"
| "poll_outcome events WouldBlock = (1, events, [])"

definition wait_for_event :: "16 word \<Rightarrow> int \<times> 16 word \<times> string \<Rightarrow> Connection \<Rightarrow> int \<times> Connection" where
  "wait_for_event events polled c =
     (case polled of (rc, revents, err) \<Rightarrow>
        let c1 = c\<lparr>syscalls := syscalls c @ [SYS_poll (m_fd c) events]\<rparr>
        in if rc > 0 \<and> is_poll_error revents
           then (- 1, c1\<lparr>m_error := m_error c1 @ ''Error when waiting event; '' @ event_to_string revents\<rparr>)
           else if rc < 0
           then (rc, c1\<lparr>m_error := ''Failed to wait for event: '' @ err, errno_text := err\<rparr>)
           else (rc, c1))"

section \<open>nointr_read and nointr_write\<close>

text \<open>
  \<open>nointr_read len\<close> returns the result of the call, the bytes stored at the destination,
  and the new state. Of the bytes waiting, a read takes at most \<open>len\<close>; the others stay at
  the head of the script. No waiting bytes is a read that returns 0.
\<close>

definition nointr_read :: "nat \<Rightarrow> Connection \<Rightarrow> int \<times> string \<times> Connection" where
  "nointr_read len c =
     (let ev = next_event (incoming c);
          (rc, c1) = wait_for_event POLLIN (poll_outcome POLLIN ev) c;
          c2 = c1\<lparr>incoming := tl (incoming c1)\<rparr>
      in if rc > 0
         then (let c3 = c2\<lparr>syscalls := syscalls c2 @ [SYS_read (m_fd c2) len]\<rparr>
               in case ev of
                    Transfer bytes \<Rightarrow>
                      (int (length (take len bytes)), take len bytes,
                       if drop len bytes = [] then c3
                       else c3\<lparr>incoming := Transfer (drop len bytes) # incoming c3\<rparr>)
                  | TransferFail e \<Rightarrow>
                      (- 1, [], c3\<lparr>m_error := ''Failed to read data: '' @ e, errno_text := e\<rparr>)
                  | _ \<Rightarrow> (0, [], c3))
         else (0, [], c2))"

text \<open>\<open>nointr_write src\<close>: the size passed with \<open>src\<close> is its length at every call site.\<close>

definition nointr_write :: "string \<Rightarrow> Connection \<Rightarrow> int \<times> Connection" where
  "nointr_write src c =
     (let ev = next_event (outgoing c);
          (rc, c1) = wait_for_event POLLOUT (poll_outcome POLLOUT ev) c;
          c2 = c1\<lparr>outgoing := tl (outgoing c1)\<rparr>
      in if rc > 0
         then (let c3 = c2\<lparr>syscalls := syscalls c2 @ [SYS_write (m_fd c2) src]\<rparr>
               in case ev of
                    Transfer n \<Rightarrow> (int (min n (length src)), c3)
                  | TransferFail e \<Rightarrow>
                      (- 1, c3\<lparr>m_error := ''Failed to write data: '' @ e, errno_text := e\<rparr>)
                  | _ \<Rightarrow> (0, c3))
         else (0, c2))"

section \<open>readRow\<close>

text \<open>
  \<open>dest[i]\<close>: the byte at \<open>i\<close> below the size of the string, the terminating NUL at the
  size. The test for the marker reads \<open>dest[2]\<close> without looking at the size, and its
  \<open>&\<close> evaluates both operands. Beyond the size the byte read is whatever follows the
  string in memory, \<open>mem i\<close>; \<open>err_marker_mem_indep\<close> below shows that the test does not depend
  on it, so \<open>readRow\<close> takes \<open>err_marker\<close>, which reads NUL there.
\<close>

definition string_at_mem :: "(nat \<Rightarrow> char) \<Rightarrow> string \<Rightarrow> nat \<Rightarrow> char" where
  "string_at_mem mem s i = (if i < length s then s ! i else if i = length s then NUL else mem i)"

definition err_marker_mem :: "(nat \<Rightarrow> char) \<Rightarrow> string \<Rightarrow> bool" where
  "err_marker_mem mem dest =
     (string_at_mem mem dest 0 = CHR ''E'' \<and>
      (string_at_mem mem dest 1 = CHR ''R'' \<and> string_at_mem mem dest 2 = CHR ''R''))"

definition string_at :: "string \<Rightarrow> nat \<Rightarrow> char" where
  "string_at s i = (if i < length s then s ! i else NUL)"

definition err_marker :: "string \<Rightarrow> bool" where
  "err_marker dest =
     (string_at dest 0 = CHR ''E'' \<and> (string_at dest 1 = CHR ''R'' \<and> string_at dest 2 = CHR ''R''))"

text \<open>The bytes a script still holds, counting one for every event: each successful read
  makes this smaller, which is why \<open>readRow\<close> and \<open>read\<close> return.\<close>

fun event_weight :: "string io_event \<Rightarrow> nat" where
  "event_weight (Transfer bytes) = Suc (length bytes)"
| "event_weight _ = 1"

definition pending :: "string io_event list \<Rightarrow> nat" where
  "pending q = sum_list (map event_weight q)"

lemma wait_for_event_incoming:
  "wait_for_event events polled c = (rc, c1) \<Longrightarrow> incoming c1 = incoming c"
  by (auto simp: wait_for_event_def Let_def split: prod.splits if_splits)

lemma nointr_read_pending:
  assumes "nointr_read len c = (rc, buf, c')"
  shows "pending (incoming c') \<le> pending (incoming c)"
    and "rc \<noteq> 0 \<Longrightarrow> rc \<noteq> - 1 \<Longrightarrow> pending (incoming c') < pending (incoming c)"
proof -
  obtain r c1 where w: "wait_for_event POLLIN (poll_outcome POLLIN (next_event (incoming c))) c = (r, c1)"
    by (cases "wait_for_event POLLIN (poll_outcome POLLIN (next_event (incoming c))) c") auto
  have inc: "incoming c1 = incoming c"
    using w by (rule wait_for_event_incoming)
  show "pending (incoming c') \<le> pending (incoming c)"
    using assms w inc
    by (cases "incoming c")
       (auto simp: nointr_read_def Let_def next_event_def pending_def
             split: if_splits io_event.splits)
  show "rc \<noteq> 0 \<Longrightarrow> rc \<noteq> - 1 \<Longrightarrow> pending (incoming c') < pending (incoming c)"
    using assms w inc
    by (cases "incoming c")
       (auto simp: nointr_read_def Let_def next_event_def pending_def
             split: if_splits io_event.splits)
qed

lemma nointr_read_one:
  assumes "nointr_read 1 c = (rc, buf, c')" and "rc \<noteq> 0" and "rc \<noteq> - 1"
  shows "rc = 1 \<and> length buf = 1"
proof -
  obtain r c1 where w: "wait_for_event POLLIN (poll_outcome POLLIN (next_event (incoming c))) c = (r, c1)"
    by (cases "wait_for_event POLLIN (poll_outcome POLLIN (next_event (incoming c))) c") auto
  from assms w show ?thesis
    by (auto simp: nointr_read_def Let_def split: if_splits io_event.splits list.splits)
qed

text \<open>
  \<open>readRow dest\<close> returns \<open>rval\<close>, the final \<open>dest\<close> and the new state. After a read that
  returned neither -1 nor 0 the one-byte buffer \<open>buf\<close> holds the byte read
  (\<open>nointr_read_one\<close>), which is \<open>hd buf\<close>.
\<close>

function readRow :: "string \<Rightarrow> Connection \<Rightarrow> bool \<times> string \<times> Connection" where
  "readRow dest c =
     (case nointr_read 1 c of (rc, buf, c1) \<Rightarrow>
        if rc = - 1
        then (False, dest, c1\<lparr>m_error := ''Failed to read row: '' @ errno_text c1\<rparr>)
        else if rc = 0
        then (False, dest, c1\<lparr>m_error := ''Request timed out''\<rparr>)
        else if hd buf = CHR 0x0A
        then (True, dest, c1)
        else if err_marker (dest @ [hd buf])
        then (False, dest @ [hd buf],
              c1\<lparr>m_error := ''Server responded with an error: '' @ (dest @ [hd buf])\<rparr>)
        else readRow (dest @ [hd buf]) c1)"
  by pat_completeness auto
termination
  by (relation "measure (\<lambda>(dest, c). pending (incoming c))")
     (auto dest: nointr_read_pending(2) [OF sym])

declare readRow.simps [simp del]

lemma readRow_pending:
  "readRow dest c = (ok, row, c') \<Longrightarrow>
   pending (incoming c') \<le> pending (incoming c) \<and> (ok \<longrightarrow> pending (incoming c') < pending (incoming c))"
proof (induction dest c arbitrary: ok row c' rule: readRow.induct)
  case (1 dest c)
  obtain rc buf c1 where r: "nointr_read 1 c = (rc, buf, c1)"
    by (cases "nointr_read 1 c") auto
  note le = nointr_read_pending(1) [OF r] and less = nointr_read_pending(2) [OF r]
  show ?case
  proof (cases "rc = - 1 \<or> rc = 0")
    case True
    with "1.prems" r le show ?thesis
      by (auto simp: readRow.simps [of dest c])
  next
    case False
    then have strict: "pending (incoming c1) < pending (incoming c)"
      using less by simp
    show ?thesis
    proof (cases "hd buf = CHR 0x0A \<or> err_marker (dest @ [hd buf])")
      case True
      with "1.prems" r False strict show ?thesis
        by (auto simp: readRow.simps [of dest c] split: if_splits)
    next
      case stay: False
      with "1.prems" r False have "readRow (dest @ [hd buf]) c1 = (ok, row, c')"
        by (simp add: readRow.simps [of dest c])
      from "1.IH" [OF r [symmetric] refl _ _ _ _ this] False stay strict
      show ?thesis by auto
    qed
  qed
qed

section \<open>read\<close>

text \<open>
  \<open>read\<close> returns the \<open>Row\<close> and the new state; \<open>None\<close> is the undefined behaviour of
  \<open>processSchema\<close>. The line is handed to the parser as \<open>row.c_str()\<close>, and the text of a
  parse error is appended as a C string.
\<close>

lemma processSchema_loop_incoming:
  "processSchema_loop vs c = Some c' \<Longrightarrow> incoming c' = incoming c"
  by (induction vs arbitrary: c) (auto split: option.splits)

lemma processSchema_incoming:
  "processSchema js c = Some c' \<Longrightarrow> incoming c' = incoming c"
  by (auto simp: processSchema_def dest: processSchema_loop_incoming)

function read :: "externals \<Rightarrow> Connection \<Rightarrow> (Row \<times> Connection) option" where
  "read ext c =
     (case readRow [] c of (ok, row, c1) \<Rightarrow>
        if ok
        then (case json_loads ext (cstring row) of
                Inr js \<Rightarrow>
                  if is_schema js
                  then (case processSchema js (c1\<lparr>m_schema := row\<rparr>) of
                          None \<Rightarrow> None
                        | Some c2 \<Rightarrow> read ext c2)
                  else Some (processRow ext js c1)
              | Inl text \<Rightarrow>
                  Some (None, c1\<lparr>m_error := ''Failed to parse JSON: '' @ cstring text\<rparr>))
        else Some (None, c1))"
  by pat_completeness auto
termination
  by (relation "measure (\<lambda>(ext, c). pending (incoming c))")
     (auto dest!: processSchema_incoming readRow_pending [OF sym])

declare read.simps [simp del]

section \<open>The handshake\<close>

definition READBUF_SIZE :: nat where
  "READBUF_SIZE = 1024"

definition OK_RESPONSE :: string where
  "OK_RESPONSE = ''OK'' @ [CHR 0x0A]"

definition CLOSE_MSG :: string where
  "CLOSE_MSG = ''CLOSE''"

definition REGISTER_MSG :: string where
  "REGISTER_MSG = ''REGISTER UUID=CDC_CONNECTOR-1.0.0, TYPE=''"

definition REQUEST_MSG :: string where
  "REQUEST_MSG = ''REQUEST-DATA ''"

text \<open>\<open>bin2hex\<close>: two lower-case hexadecimal digits per byte, the high nibble first. (The
  loop counts in an \<open>int\<close>: the data are taken to be shorter than \<open>2^31\<close> bytes.)\<close>

definition hexconvtab :: string where
  "hexconvtab = ''0123456789abcdef''"

fun bin2hex :: "8 word list \<Rightarrow> string" where
  "bin2hex [] = []"
| "bin2hex (b # bs) =
     hexconvtab ! unat (drop_bit 4 b) # hexconvtab ! unat (b AND 0x0f) # bin2hex bs"

text \<open>The bytes of a string seen through a \<open>uint8_t*\<close>.\<close>

definition bytes_of :: "string \<Rightarrow> 8 word list" where
  "bytes_of s = map of_char s"

definition SHA_DIGEST_LENGTH :: nat where
  "SHA_DIGEST_LENGTH = 20"

text \<open>\<open>SHA1\<close> fills the \<open>SHA_DIGEST_LENGTH\<close> bytes of \<open>digest\<close>, which \<open>bin2hex\<close> then reads.\<close>

definition generateAuthString :: "externals \<Rightarrow> string \<Rightarrow> string \<Rightarrow> string" where
  "generateAuthString ext user password =
     (let digest = take SHA_DIGEST_LENGTH (SHA1 ext (bytes_of password));
          auth_str = user @ '':'';
          part1 = bin2hex (bytes_of auth_str);
          part2 = bin2hex digest
      in part1 @ part2)"

text \<open>
  The code \<open>doAuth\<close> and \<open>doRegistration\<close> both run after their write: read up to
  \<open>READBUF_SIZE\<close> bytes into a fresh buffer and compare its first three bytes with
  \<open>OK_RESPONSE\<close>. The comparison reads three bytes whatever the read delivered, and the
  failure branch stores a NUL at \<open>buf[bytes]\<close>: with fewer than three bytes read the
  comparison is of uninitialised memory, and with a full buffer the store is one past its
  end. Both are undefined: \<open>None\<close>.
\<close>

definition read_response :: "string \<Rightarrow> string \<Rightarrow> Connection \<Rightarrow> (bool \<times> Connection) option" where
  "read_response read_failed refused c =
     (case nointr_read READBUF_SIZE c of (bytes, buf, c1) \<Rightarrow>
        if bytes = - 1
        then Some (False, c1\<lparr>m_error := read_failed @ errno_text c1\<rparr>)
        else if length buf < length OK_RESPONSE
        then None
        else if take (length OK_RESPONSE) buf \<noteq> OK_RESPONSE
        then (if length buf = READBUF_SIZE then None
              else Some (False, c1\<lparr>m_error := refused @ cstring buf\<rparr>))
        else Some (True, c1))"

definition doAuth :: "externals \<Rightarrow> Connection \<Rightarrow> (bool \<times> Connection) option" where
  "doAuth ext c =
     (let auth_str = generateAuthString ext (m_user c) (m_password c)
      in case nointr_write auth_str c of (n, c1) \<Rightarrow>
           if n = - 1
           then Some (False, c1\<lparr>m_error := ''Failed to write authentication data: '' @ errno_text c1\<rparr>)
           else read_response ''Failed to read authentication response: ''
                  ''Authentication failed: '' c1)"

definition doRegistration :: "Connection \<Rightarrow> (bool \<times> Connection) option" where
  "doRegistration c =
     (let reg_msg = REGISTER_MSG @ ''JSON''
      in case nointr_write reg_msg c of (n, c1) \<Rightarrow>
           if n = - 1
           then Some (False, c1\<lparr>m_error := ''Failed to write registration message: '' @ errno_text c1\<rparr>)
           else read_response ''Failed to read registration response: ''
                  ''Registration failed: '' c1)"

section \<open>createConnection, closeConnection, requestData\<close>

text \<open>
  What the system answers while the socket is set up: whether \<open>inet_aton\<close> accepts the
  address, the descriptor \<open>socket\<close> returns (-1 on failure), and for \<open>socket\<close>, \<open>connect\<close>
  and the two \<open>fcntl\<close> calls the error text of a failure (\<open>None\<close> for success).
\<close>

record socket_env =
  inet_aton_ok :: bool
  socket_fd :: int
  socket_err :: string
  connect_err :: "string option"
  getfl_err :: "string option"
  setfl_err :: "string option"

definition createConnection ::
  "externals \<Rightarrow> socket_env \<Rightarrow> Connection \<Rightarrow> (bool \<times> Connection) option" where
  "createConnection ext env c =
     (if \<not> inet_aton_ok env
      then Some (False, c\<lparr>m_error := ''Invalid address: '' @ m_address c\<rparr>)
      else
        let fd = socket_fd env;
            c1 = c\<lparr>syscalls := syscalls c @ [SYS_socket]\<rparr>;
            c2 = (if fd = - 1
                  then c1\<lparr>m_error := ''Failed to create socket: '' @ socket_err env,
                          errno_text := socket_err env\<rparr>
                  else c1);
            c3 = c2\<lparr>m_fd := fd, syscalls := syscalls c2 @ [SYS_connect fd]\<rparr>
        in case connect_err env of
             Some e \<Rightarrow> Some (False, c3\<lparr>m_error := ''Failed to connect: '' @ e, errno_text := e\<rparr>)
           | None \<Rightarrow>
               (let c4 = c3\<lparr>syscalls := syscalls c3 @ [SYS_fcntl fd]\<rparr>
                in case getfl_err env of
                     Some e \<Rightarrow>
                       Some (False, c4\<lparr>m_error := ''Failed to set socket non-blocking: '' @ e,
                                       errno_text := e\<rparr>)
                   | None \<Rightarrow>
                       (let c5 = c4\<lparr>syscalls := syscalls c4 @ [SYS_fcntl fd]\<rparr>
                        in case setfl_err env of
                             Some e \<Rightarrow>
                               Some (False, c5\<lparr>m_error := ''Failed to set socket non-blocking: '' @ e,
                                               errno_text := e\<rparr>)
                           | None \<Rightarrow>
                               (case doAuth ext c5 of
                                  None \<Rightarrow> None
                                | Some (authenticated, c6) \<Rightarrow>
                                    if authenticated then doRegistration c6
                                    else Some (False, c6)))))"

definition closeConnection :: "Connection \<Rightarrow> Connection" where
  "closeConnection c =
     (if m_fd c \<noteq> - 1
      then (case nointr_write CLOSE_MSG c of (n, c1) \<Rightarrow>
              c1\<lparr>syscalls := syscalls c1 @ [SYS_close (m_fd c1)], m_fd := - 1\<rparr>)
      else c)"

text \<open>The destructor only calls \<open>closeConnection\<close>.\<close>

definition destroy_Connection :: "Connection \<Rightarrow> Connection" where
  "destroy_Connection c = closeConnection c"

definition requestData :: "string \<Rightarrow> string \<Rightarrow> Connection \<Rightarrow> bool \<times> Connection" where
  "requestData table gtid_arg c =
     (let req_msg = REQUEST_MSG @ table @ (if length gtid_arg \<noteq> 0 then '' '' @ gtid_arg else [])
      in case nointr_write req_msg c of (n, c1) \<Rightarrow>
           if n = - 1
           then (False, c1\<lparr>m_error := ''Failed to write request: '' @ errno_text c1\<rparr>)
           else (True, c1))"

section \<open>Notions used to state the properties\<close>

subsection \<open>Fields of a data event\<close>

text \<open>A key of the registry has a value in a JSON value when \<open>json_object_get\<close> finds it.\<close>

definition has_key :: "json \<Rightarrow> string \<Rightarrow> bool" where
  "has_key js k = (json_object_get js (cstring k) \<noteq> None)"

text \<open>The text \<open>processRow\<close> pushes for a key: \<open>json_to_string\<close> of the value found.\<close>

definition field_text :: "externals \<Rightarrow> json \<Rightarrow> string \<Rightarrow> string" where
  "field_text ext js k =
     (case json_object_get js (cstring k) of Some v \<Rightarrow> json_to_string ext v | None \<Rightarrow> [])"

text \<open>Reading a decimal text back: the number its digits denote, negated after a minus
  sign.\<close>

definition digit_value :: "char \<Rightarrow> nat" where
  "digit_value ch = of_char ch - 48"

definition decimal_value :: "string \<Rightarrow> nat" where
  "decimal_value ds = foldl (\<lambda>acc ch. 10 * acc + digit_value ch) 0 ds"

definition text_integer :: "string \<Rightarrow> int" where
  "text_integer s =
     (case s of
        [] \<Rightarrow> 0
      | ch # ds \<Rightarrow> if ch = CHR ''-'' then - int (decimal_value ds) else int (decimal_value s))"

subsection \<open>Fields of a schema announcement\<close>

text \<open>The elements of the \<open>"fields"\<close> array of a schema announcement.\<close>

definition fields_of :: "json \<Rightarrow> json list" where
  "fields_of js = json_array_elements (json_object_get js ''fields'')"

text \<open>An element's \<open>"name"\<close> is usable when it is absent or a JSON string.\<close>

definition name_usable :: "json \<Rightarrow> bool" where
  "name_usable v = (case json_object_get v ''name'' of None \<Rightarrow> True | Some n \<Rightarrow> json_is_string n)"

text \<open>
  The name and type the registry is to hold for one element, in words: the name is the
  string under \<open>"name"\<close> up to its first NUL byte, empty when there is none; the type is
  the string under \<open>"real_type"\<close> up to its first NUL byte, \<open>"char(50)"\<close> when
  \<open>"real_type"\<close> is there but not a string, and without \<open>"real_type"\<close> the same from
  \<open>"type"\<close>, \<open>"undefined"\<close> when both are missing.
\<close>

definition stored_name :: "json \<Rightarrow> string" where
  "stored_name v =
     (case json_object_get v ''name'' of Some (JSON_STRING s) \<Rightarrow> cstring s | _ \<Rightarrow> [])"

definition stored_type :: "json \<Rightarrow> string" where
  "stored_type v =
     (case json_object_get v ''real_type'' of
        Some (JSON_STRING s) \<Rightarrow> cstring s
      | Some _ \<Rightarrow> ''char(50)''
      | None \<Rightarrow>
          (case json_object_get v ''type'' of
             Some (JSON_STRING s) \<Rightarrow> cstring s
           | Some _ \<Rightarrow> ''char(50)''
           | None \<Rightarrow> ''undefined''))"

text \<open>
  The same for one element as the specification words it: the stored name is the value
  of \<open>"name"\<close>, empty when absent; the stored type is the value of \<open>"real_type"\<close> if
  present, else the value of \<open>"type"\<close> if that is a string, else \<open>"char(50)"\<close> if \<open>"type"\<close>
  exists, else \<open>"undefined"\<close>. And for the registry, element by element.
\<close>

definition claimed_field :: "json \<Rightarrow> string \<Rightarrow> string \<Rightarrow> bool" where
  "claimed_field v name type =
     ((case json_object_get v ''name'' of None \<Rightarrow> name = [] | Some n \<Rightarrow> n = JSON_STRING name) \<and>
      (case json_object_get v ''real_type'' of
         Some t \<Rightarrow> t = JSON_STRING type
       | None \<Rightarrow>
           (case json_object_get v ''type'' of
              Some t \<Rightarrow> if json_is_string t then t = JSON_STRING type else type = ''char(50)''
            | None \<Rightarrow> type = ''undefined'')))"

definition claimed_registry :: "json \<Rightarrow> Connection \<Rightarrow> bool" where
  "claimed_registry js c =
     (length (m_keys c) = length (fields_of js) \<and> length (m_types c) = length (fields_of js) \<and>
      (\<forall>i < length (fields_of js). claimed_field (fields_of js ! i) (m_keys c ! i) (m_types c ! i)))"

text \<open>The shape of a schema announcement, in words: an object with a \<open>"fields"\<close> key whose
  value is a non-empty array whose first element is an object with a \<open>"name"\<close> key.\<close>

definition schema_shaped :: "json \<Rightarrow> bool" where
  "schema_shaped js =
     (case js of
        JSON_OBJECT kvs \<Rightarrow>
          (case map_of kvs ''fields'' of
             Some (JSON_ARRAY (first # others)) \<Rightarrow>
               (case first of JSON_OBJECT fs \<Rightarrow> ''name'' \<in> fst ` set fs | _ \<Rightarrow> False)
           | _ \<Rightarrow> False)
      | _ \<Rightarrow> False)"

subsection \<open>The registry and its invariants\<close>

text \<open>The registry: the two vectors of the Connection; and the two invariants.\<close>

definition registry :: "Connection \<Rightarrow> string list \<times> string list" where
  "registry c = (m_keys c, m_types c)"

definition registry_inv :: "Connection \<Rightarrow> bool" where
  "registry_inv c = (length (m_keys c) = length (m_types c))"

definition row_inv :: "InternalRow \<Rightarrow> bool" where
  "row_inv r =
     (length (row_values r) = length (row_keys r) \<and> length (row_keys r) = length (row_types r))"

text \<open>
  The states a Connection can be in: the one the constructor makes, and those that the
  public member functions and the environment (which may extend the two scripts at any
  time) make of such a state.
\<close>

inductive reachable :: "externals \<Rightarrow> Connection \<Rightarrow> bool" for ext :: externals where
  reach_new: "reachable ext (new_Connection address port user password timeout rx tx)"
| reach_createConnection:
    "reachable ext c \<Longrightarrow> createConnection ext env c = Some (ok, c') \<Longrightarrow> reachable ext c'"
| reach_requestData:
    "reachable ext c \<Longrightarrow> requestData table g c = (ok, c') \<Longrightarrow> reachable ext c'"
| reach_read: "reachable ext c \<Longrightarrow> read ext c = Some (row, c') \<Longrightarrow> reachable ext c'"
| reach_closeConnection: "reachable ext c \<Longrightarrow> reachable ext (closeConnection c)"
| reach_environment: "reachable ext c \<Longrightarrow> reachable ext (c\<lparr>incoming := rx, outgoing := tx\<rparr>)"

subsection \<open>What the socket delivers and takes\<close>

definition LF :: char where
  "LF = CHR 0x0A"

text \<open>The bytes a script delivers before anything else happens: those of its leading
  non-empty transfers, however they are cut into transfers.\<close>

fun stream_bytes :: "string io_event list \<Rightarrow> string" where
  "stream_bytes (Transfer (b # bs) # q) = (b # bs) @ stream_bytes q"
| "stream_bytes _ = []"

text \<open>The system calls of \<open>n\<close> reads of one byte.\<close>

definition read_calls :: "int \<Rightarrow> nat \<Rightarrow> syscall list" where
  "read_calls fd n = concat (replicate n [SYS_poll fd POLLIN, SYS_read fd 1])"

text \<open>The buffers handed to \<open>write\<close>, in order.\<close>

fun written :: "syscall list \<Rightarrow> string list" where
  "written [] = []"
| "written (SYS_write fd bytes # calls) = bytes # written calls"
| "written (call # calls) = written calls"

text \<open>Lower-case hexadecimal encoding, by division: two digits per byte, the sixteens
  first.\<close>

definition hex_digit :: "nat \<Rightarrow> char" where
  "hex_digit n = ''0123456789abcdef'' ! n"

definition hex_byte :: "8 word \<Rightarrow> string" where
  "hex_byte b = [hex_digit (unat b div 16), hex_digit (unat b mod 16)]"

definition hex_encode :: "8 word list \<Rightarrow> string" where
  "hex_encode bs = concat (map hex_byte bs)"

section \<open>Examples\<close>

text \<open>
  The announcement of a schema of four fields, a data event under it, and the lines that
  carry them. The example parser knows these two lines only; the example digest is
  twenty zero bytes.
\<close>

definition example_schema_line :: string where
  "example_schema_line =
     ''{\"fields\":[{\"name\":\"domain\",\"real_type\":\"int\"},'' @
     ''{\"name\":\"server_id\",\"real_type\":\"int\"},'' @
     ''{\"name\":\"sequence\",\"real_type\":\"int\"},'' @
     ''{\"name\":\"col1\",\"real_type\":\"varchar(10)\"}]}''"

definition example_event_line :: string where
  "example_event_line = ''{\"domain\":0,\"server_id\":1,\"sequence\":5,\"col1\":\"hello\"}''"

definition example_schema :: json where
  "example_schema =
     JSON_OBJECT [(''fields'', JSON_ARRAY
       [JSON_OBJECT [(''name'', JSON_STRING ''domain''), (''real_type'', JSON_STRING ''int'')],
        JSON_OBJECT [(''name'', JSON_STRING ''server_id''), (''real_type'', JSON_STRING ''int'')],
        JSON_OBJECT [(''name'', JSON_STRING ''sequence''), (''real_type'', JSON_STRING ''int'')],
        JSON_OBJECT [(''name'', JSON_STRING ''col1''), (''real_type'', JSON_STRING ''varchar(10)'')]])]"

definition example_event :: json where
  "example_event =
     JSON_OBJECT [(''domain'', JSON_INTEGER 0), (''server_id'', JSON_INTEGER 1),
                  (''sequence'', JSON_INTEGER 5), (''col1'', JSON_STRING ''hello'')]"

definition example_ext :: externals where
  "example_ext =
     \<lparr>json_loads = (\<lambda>text. if text = example_schema_line then Inr example_schema
                          else if text = example_event_line then Inr example_event
                          else Inl ''unknown line''),
      real_text = (\<lambda>bits. ''0''),
      SHA1 = (\<lambda>bytes. replicate 20 0)\<rparr>"

definition example_keys :: "string list" where
  "example_keys = [''domain'', ''server_id'', ''sequence'', ''col1'']"

definition example_types :: "string list" where
  "example_types = [''int'', ''int'', ''int'', ''varchar(10)'']"

definition example_row :: InternalRow where
  "example_row =
     \<lparr>row_keys = example_keys, row_types = example_types,
      row_values = [''0'', ''1'', ''5'', ''hello'']\<rparr>"

text \<open>A fresh Connection; the same after the example schema has been announced; one about
  to receive the two example lines in one transfer; one about to receive the data event
  alone; and one about to receive an error line from the server.\<close>

definition fresh :: Connection where
  "fresh = new_Connection ''127.0.0.1'' 4001 ''maxscale'' ''maxscale'' 10 [] []"

definition announced :: Connection where
  "announced = fresh\<lparr>m_keys := example_keys, m_types := example_types\<rparr>"

definition listening :: Connection where
  "listening = fresh\<lparr>incoming := [Transfer (example_schema_line @ LF # example_event_line @ [LF])]\<rparr>"

definition expecting :: Connection where
  "expecting = announced\<lparr>incoming := [Transfer (example_event_line @ [LF])]\<rparr>"

definition complaining :: Connection where
  "complaining = fresh\<lparr>incoming := [Transfer (''ERR: no such table'' @ [LF])]\<rparr>"

text \<open>Three more announcements: a \<open>"real_type"\<close> that is a number, a \<open>"name"\<close> that is a
  number, and a \<open>"name"\<close> with a NUL byte in it (the parser is run with
  \<open>JSON_ALLOW_NUL\<close>). A data event that lacks two fields of the example schema, and a
  string value with a NUL byte in it.\<close>

definition numeric_real_type :: json where
  "numeric_real_type =
     JSON_OBJECT [(''fields'', JSON_ARRAY
       [JSON_OBJECT [(''name'', JSON_STRING ''a''), (''real_type'', JSON_INTEGER 7)]])]"

definition numeric_name :: json where
  "numeric_name = JSON_OBJECT [(''fields'', JSON_ARRAY [JSON_OBJECT [(''name'', JSON_INTEGER 7)]])]"

definition nul_name :: json where
  "nul_name =
     JSON_OBJECT [(''fields'', JSON_ARRAY
       [JSON_OBJECT [(''name'', JSON_STRING [CHR ''a'', NUL, CHR ''b'']),
                     (''real_type'', JSON_STRING ''int'')]])]"

definition short_event :: json where
  "short_event = JSON_OBJECT [(''domain'', JSON_INTEGER 0), (''sequence'', JSON_INTEGER 5)]"

definition nul_string :: string where
  "nul_string = [CHR ''a'', NUL, CHR ''b'']"

text \<open>The system refuses the connection after handing out descriptor 3; the Connection
  that \<open>createConnection\<close> leaves behind then; an address that is not accepted; and a
  Connection with an open socket, whose peer takes the token and answers \<open>OK\<close>.\<close>

definition dialing :: Connection where
  "dialing = new_Connection ''127.0.0.1'' 4001 ''maxscale'' ''maxscale'' 10 [] [Transfer 5]"

definition refusing :: socket_env where
  "refusing =
     \<lparr>inet_aton_ok = True, socket_fd = 3, socket_err = [],
      connect_err = Some ''Connection refused'', getfl_err = None, setfl_err = None\<rparr>"

definition refused :: Connection where
  "refused =
     dialing\<lparr>m_fd := 3, m_error := ''Failed to connect: Connection refused'',
             syscalls := [SYS_socket, SYS_connect 3], errno_text := ''Connection refused''\<rparr>"

definition no_address :: socket_env where
  "no_address =
     \<lparr>inet_aton_ok = False, socket_fd = 3, socket_err = [],
      connect_err = None, getfl_err = None, setfl_err = None\<rparr>"

definition authenticating :: Connection where
  "authenticating =
     (new_Connection ''127.0.0.1'' 4001 ''maxscale'' ''maxscale'' 10
        [Transfer (''OK'' @ [LF])] [Transfer 58])\<lparr>m_fd := 3\<rparr>"




section \<open>Row construction\<close>

lemma find_distance_absent: "str \<notin> set ks \<Longrightarrow> find_distance ks str = length ks"
  by (induction ks) auto

lemma find_distance_present:
  "str \<in> set ks \<Longrightarrow> find_distance ks str < length ks \<and> ks ! find_distance ks str = str"
  by (induction ks) auto

lemma processRow_loop_complete:
  "\<forall>k \<in> set ks. has_key js k \<Longrightarrow>
   processRow_loop ext js ks vals err = (vals @ map (field_text ext js) ks, err)"
  by (induction ks arbitrary: vals) (auto simp: has_key_def field_text_def)

lemma processRow_loop_missing:
  "\<not> (\<forall>k \<in> set ks. has_key js k) \<Longrightarrow>
   \<exists>k \<in> set ks. \<not> has_key js k \<and>
     snd (processRow_loop ext js ks vals err) = ''No value for key found: '' @ k"
  by (induction ks arbitrary: vals) (auto simp: has_key_def split: option.splits)

lemma processRow_complete:
  assumes "\<forall>k \<in> set (m_keys c). has_key js k"
  shows "processRow ext js c =
     (Some \<lparr>row_keys = m_keys c, row_types = m_types c,
            row_values = map (field_text ext js) (m_keys c)\<rparr>, c\<lparr>m_error := []\<rparr>)"
  using processRow_loop_complete [OF assms, of ext "[]" "[]"]
  by (simp add: processRow_def)

lemma processRow_missing:
  assumes "\<not> (\<forall>k \<in> set (m_keys c). has_key js k)"
  shows "\<exists>k \<in> set (m_keys c). \<not> has_key js k \<and>
     processRow ext js c = (None, c\<lparr>m_error := ''No value for key found: '' @ k\<rparr>)"
proof -
  from processRow_loop_missing [OF assms, of ext "[]" "[]"]
  obtain k where k: "k \<in> set (m_keys c)" "\<not> has_key js k"
    "snd (processRow_loop ext js (m_keys c) [] []) = ''No value for key found: '' @ k"
    by blast
  then have "processRow ext js c = (None, c\<lparr>m_error := ''No value for key found: '' @ k\<rparr>)"
    by (cases "processRow_loop ext js (m_keys c) [] []") (simp add: processRow_def)
  with k show ?thesis by blast
qed

lemma processRow_Some:
  assumes "processRow ext js c = (Some r, c')"
  shows "r = \<lparr>row_keys = m_keys c, row_types = m_types c,
              row_values = map (field_text ext js) (m_keys c)\<rparr>"
    and "c' = c\<lparr>m_error := []\<rparr>" and "\<forall>k \<in> set (m_keys c). has_key js k"
proof -
  have all: "\<forall>k \<in> set (m_keys c). has_key js k"
  proof (rule ccontr)
    assume "\<not> (\<forall>k \<in> set (m_keys c). has_key js k)"
    from processRow_missing [OF this, of ext] assms show False by auto
  qed
  from processRow_complete [OF all, of ext] assms
  show "r = \<lparr>row_keys = m_keys c, row_types = m_types c,
              row_values = map (field_text ext js) (m_keys c)\<rparr>"
    and "c' = c\<lparr>m_error := []\<rparr>" by simp_all
  show "\<forall>k \<in> set (m_keys c). has_key js k" by (rule all)
qed

text \<open>Evaluating the example: the decimal texts, the fields, the row.\<close>

lemma decimal_digits_small: "n < 10 \<Longrightarrow> decimal_digits n = [digit_char n]"
  by (simp add: decimal_digits.simps)

lemma example_field_texts:
  "map (field_text ext example_event) example_keys = [''0'', ''1'', ''5'', ''hello'']"
  by (simp add: field_text_def example_event_def example_keys_def cstring_def
      NUL_def integer_text_def decimal_digits_small digit_char_def)

lemma example_has_keys: "\<forall>k \<in> set example_keys. has_key example_event k"
  by (simp add: has_key_def example_event_def example_keys_def cstring_def NUL_def)

lemma example_processRow:
  assumes "m_keys c = example_keys" and "m_types c = example_types"
  shows "processRow ext example_event c = (Some example_row, c\<lparr>m_error := []\<rparr>)"
proof -
  have "\<forall>k \<in> set (m_keys c). has_key example_event k"
    using example_has_keys assms by simp
  from processRow_complete [OF this, of ext] show ?thesis
    using example_field_texts assms by (simp add: example_row_def)
qed

lemma announced_registry: "m_keys announced = example_keys" "m_types announced = example_types"
  by (simp_all add: announced_def)

section \<open>The registry after processSchema\<close>

lemma json_string_value_Some: "json_string_value j = Some s \<Longrightarrow> j = JSON_STRING s"
  by (cases j) auto

lemma json_string_value_None: "json_string_value j = None \<Longrightarrow> \<not> json_is_string j"
  by (cases j) auto

lemma json_is_string_iff: "json_is_string j \<longleftrightarrow> (\<exists>s. j = JSON_STRING s)"
  by (cases j) auto

lemma nameval_usable: "name_usable v \<Longrightarrow> nameval v = Some (stored_name v)"
  by (auto simp: nameval_def name_usable_def stored_name_def json_is_string_iff
           split: option.splits)

lemma nameval_unusable: "\<not> name_usable v \<Longrightarrow> nameval v = None"
  by (auto simp: nameval_def name_usable_def split: option.splits
           dest: json_string_value_Some)

lemma typeval_stored_type: "typeval v = stored_type v"
proof (cases "json_object_get v ''real_type''")
  case None
  show ?thesis
  proof (cases "json_object_get v ''type''")
    case None
    with \<open>json_object_get v ''real_type'' = None\<close> show ?thesis
      by (simp add: typeval_def stored_type_def)
  next
    case (Some t)
    with \<open>json_object_get v ''real_type'' = None\<close> show ?thesis
      by (cases t) (simp_all add: typeval_def stored_type_def)
  qed
next
  case (Some t)
  then show ?thesis
    by (cases t) (simp_all add: typeval_def stored_type_def)
qed

lemma processSchema_loop_Some:
  "\<forall>v \<in> set vs. name_usable v \<Longrightarrow>
   processSchema_loop vs c =
     Some (c\<lparr>m_keys := m_keys c @ map stored_name vs, m_types := m_types c @ map stored_type vs\<rparr>)"
  by (induction vs arbitrary: c) (simp_all add: nameval_usable typeval_stored_type)

lemma processSchema_loop_None:
  "\<not> (\<forall>v \<in> set vs. name_usable v) \<Longrightarrow> processSchema_loop vs c = None"
proof (induction vs arbitrary: c)
  case Nil
  then show ?case by simp
next
  case (Cons v vs)
  then show ?case
    by (cases "name_usable v") (simp_all add: nameval_usable nameval_unusable)
qed

lemma processSchema_eq:
  "processSchema js c =
     (if \<forall>v \<in> set (fields_of js). name_usable v
      then Some (c\<lparr>m_keys := map stored_name (fields_of js),
                   m_types := map stored_type (fields_of js)\<rparr>)
      else None)"
  using processSchema_loop_Some [of "fields_of js" "c\<lparr>m_keys := [], m_types := []\<rparr>"]
        processSchema_loop_None [of "fields_of js" "c\<lparr>m_keys := [], m_types := []\<rparr>"]
  by (auto simp: processSchema_def fields_of_def)

section \<open>What leaves the registry alone\<close>

lemma wait_for_event_registry:
  "wait_for_event events polled c = (rc, c1) \<Longrightarrow> registry c1 = registry c"
  by (auto simp: wait_for_event_def registry_def Let_def split: prod.splits if_splits)

lemma nointr_read_registry:
  assumes "nointr_read len c = (rc, buf, c')"
  shows "registry c' = registry c"
proof -
  obtain r c1 where w: "wait_for_event POLLIN (poll_outcome POLLIN (next_event (incoming c))) c = (r, c1)"
    by (cases "wait_for_event POLLIN (poll_outcome POLLIN (next_event (incoming c))) c") auto
  from wait_for_event_registry [OF w] assms w show ?thesis
    by (auto simp: nointr_read_def registry_def Let_def split: if_splits io_event.splits)
qed

lemma nointr_write_registry:
  assumes "nointr_write src c = (rc, c')"
  shows "registry c' = registry c"
proof -
  obtain r c1 where w: "wait_for_event POLLOUT (poll_outcome POLLOUT (next_event (outgoing c))) c = (r, c1)"
    by (cases "wait_for_event POLLOUT (poll_outcome POLLOUT (next_event (outgoing c))) c") auto
  from wait_for_event_registry [OF w] assms w show ?thesis
    by (auto simp: nointr_write_def registry_def Let_def split: if_splits io_event.splits)
qed

lemma readRow_registry:
  "readRow dest c = (ok, row, c') \<Longrightarrow> registry c' = registry c"
proof (induction dest c arbitrary: ok row c' rule: readRow.induct)
  case (1 dest c)
  obtain rc buf c1 where r: "nointr_read 1 c = (rc, buf, c1)"
    by (cases "nointr_read 1 c") auto
  note reg = nointr_read_registry [OF r]
  show ?case
  proof (cases "rc = - 1 \<or> rc = 0 \<or> hd buf = CHR 0x0A \<or> err_marker (dest @ [hd buf])")
    case True
    with "1.prems" r reg show ?thesis
      by (auto simp: readRow.simps [of dest c] registry_def split: if_splits)
  next
    case False
    with "1.prems" r have "readRow (dest @ [hd buf]) c1 = (ok, row, c')"
      by (simp add: readRow.simps [of dest c])
    from "1.IH" [OF r [symmetric] refl _ _ _ _ this] False reg
    show ?thesis by auto
  qed
qed

lemma read_response_registry:
  "read_response m1 m2 c = Some (ok, c') \<Longrightarrow> registry c' = registry c"
  by (cases "nointr_read READBUF_SIZE c")
     (auto simp: read_response_def registry_def split: if_splits dest!: nointr_read_registry)

lemma doAuth_registry:
  "doAuth ext c = Some (ok, c') \<Longrightarrow> registry c' = registry c"
  by (cases "nointr_write (generateAuthString ext (m_user c) (m_password c)) c")
     (auto simp: doAuth_def registry_def Let_def split: if_splits
           dest!: nointr_write_registry read_response_registry)

lemma doRegistration_registry:
  "doRegistration c = Some (ok, c') \<Longrightarrow> registry c' = registry c"
  by (cases "nointr_write (REGISTER_MSG @ ''JSON'') c")
     (auto simp: doRegistration_def registry_def Let_def split: if_splits
           dest!: nointr_write_registry read_response_registry)

lemma createConnection_registry:
  "createConnection ext env c = Some (ok, c') \<Longrightarrow> registry c' = registry c"
  by (auto simp: createConnection_def registry_def Let_def
           split: if_splits option.splits prod.splits
           dest!: doAuth_registry doRegistration_registry)

lemma closeConnection_registry: "registry (closeConnection c) = registry c"
  by (cases "nointr_write CLOSE_MSG c")
     (auto simp: closeConnection_def registry_def dest!: nointr_write_registry)

lemma requestData_registry:
  "requestData table g c = (ok, c') \<Longrightarrow> registry c' = registry c"
  by (cases "nointr_write (REQUEST_MSG @ table @ (if length g \<noteq> 0 then '' '' @ g else [])) c")
     (auto simp: requestData_def registry_def Let_def split: if_splits dest!: nointr_write_registry)

lemma processSchema_inv: "processSchema js c = Some c' \<Longrightarrow> registry_inv c'"
  by (auto simp: processSchema_eq registry_inv_def split: if_splits)

lemma processRow_inv:
  assumes "registry_inv c" and "processRow ext js c = (r, c')"
  shows "registry_inv c' \<and> (\<forall>row. r = Some row \<longrightarrow> row_inv row)"
proof (cases "\<forall>k \<in> set (m_keys c). has_key js k")
  case True
  from processRow_complete [OF this, of ext] assms show ?thesis
    by (auto simp: registry_inv_def row_inv_def)
next
  case False
  from processRow_missing [OF this, of ext] assms show ?thesis
    by (auto simp: registry_inv_def)
qed

lemma read_inv:
  "registry_inv c \<Longrightarrow> read ext c = Some (r, c') \<Longrightarrow>
   registry_inv c' \<and> (\<forall>row. r = Some row \<longrightarrow> row_inv row)"
proof (induction ext c arbitrary: r c' rule: read.induct)
  case (1 ext c)
  obtain ok row c1 where rr: "readRow [] c = (ok, row, c1)"
    by (cases "readRow [] c") auto
  from readRow_registry [OF rr] "1.prems"(1) have inv1: "registry_inv c1"
    by (simp add: registry_def registry_inv_def)
  show ?case
  proof (cases ok)
    case False
    with "1.prems" rr inv1 show ?thesis
      by (auto simp: read.simps [of ext c])
  next
    case True
    show ?thesis
    proof (cases "json_loads ext (cstring row)")
      case (Inl msg)
      with "1.prems" rr True inv1 show ?thesis
        by (auto simp: read.simps [of ext c] registry_inv_def)
    next
      case (Inr js)
      show ?thesis
      proof (cases "is_schema js")
        case False
        with "1.prems" rr True Inr have "processRow ext js c1 = (r, c')"
          by (simp add: read.simps [of ext c])
        from processRow_inv [OF inv1 this] show ?thesis .
      next
        case schema: True
        with "1.prems" rr True Inr obtain c2 where
          c2: "processSchema js (c1\<lparr>m_schema := row\<rparr>) = Some c2" and again: "read ext c2 = Some (r, c')"
          by (auto simp: read.simps [of ext c] split: option.splits)
        from "1.IH" [OF rr [symmetric] refl True Inr schema c2 processSchema_inv [OF c2] again]
        show ?thesis .
      qed
    qed
  qed
qed

section \<open>Decimal texts and C strings\<close>

lemma digit_chars:
  "list_all (\<lambda>d. digit_value (digit_char d) = d \<and> digit_char d \<noteq> CHR ''-'') [0..<10]"
  by code_simp

lemma digit_value_digit_char: "d < 10 \<Longrightarrow> digit_value (digit_char d) = d"
  using digit_chars by (simp add: list_all_iff)

lemma digit_char_not_minus: "d < 10 \<Longrightarrow> digit_char d \<noteq> CHR ''-''"
  using digit_chars by (simp add: list_all_iff)

lemma decimal_value_snoc: "decimal_value (ds @ [ch]) = 10 * decimal_value ds + digit_value ch"
  by (simp add: decimal_value_def)

lemma decimal_value_digits: "decimal_value (decimal_digits n) = n"
proof (induction n rule: decimal_digits.induct)
  case (1 n)
  show ?case
  proof (cases "n < 10")
    case True
    then show ?thesis
      by (simp add: decimal_digits_small decimal_value_def digit_value_digit_char)
  next
    case False
    with 1 have "decimal_value (decimal_digits (n div 10)) = n div 10"
      by simp
    with False show ?thesis
      by (subst decimal_digits.simps) (simp add: decimal_value_snoc digit_value_digit_char)
  qed
qed

lemma decimal_digits_hd: "\<exists>d ds. d < 10 \<and> decimal_digits n = digit_char d # ds"
proof (induction n rule: decimal_digits.induct)
  case (1 n)
  show ?case
  proof (cases "n < 10")
    case True
    then show ?thesis by (auto simp: decimal_digits_small)
  next
    case False
    with 1 obtain d ds where "d < 10" "decimal_digits (n div 10) = digit_char d # ds"
      by auto
    with False show ?thesis
      by (subst decimal_digits.simps) auto
  qed
qed

lemma text_integer_text: "text_integer (integer_text i) = i"
proof (cases "i < 0")
  case True
  then show ?thesis
    by (simp add: text_integer_def integer_text_def decimal_value_digits)
next
  case False
  obtain d ds where d: "d < 10" "decimal_digits (nat i) = digit_char d # ds"
    using decimal_digits_hd by blast
  have "decimal_value (decimal_digits (nat i)) = nat i"
    by (rule decimal_value_digits)
  with d False digit_char_not_minus [OF d(1)] show ?thesis
    by (simp add: text_integer_def integer_text_def)
qed

lemma cstring_id: "NUL \<notin> set s \<Longrightarrow> cstring s = s"
  by (auto simp: cstring_def takeWhile_eq_all_conv)

lemma processRow_loop_first_missing:
  "find (\<lambda>k. \<not> has_key js k) ks = Some k \<Longrightarrow>
   snd (processRow_loop ext js ks vals err) = ''No value for key found: '' @ k"
  by (induction ks arbitrary: vals) (auto simp: has_key_def split: option.splits if_splits)

lemma processRow_first_missing:
  assumes "find (\<lambda>k. \<not> has_key js k) (m_keys c) = Some k"
  shows "processRow ext js c = (None, c\<lparr>m_error := ''No value for key found: '' @ k\<rparr>)"
  using processRow_loop_first_missing [OF assms, of ext "[]" "[]"]
  by (cases "processRow_loop ext js (m_keys c) [] []") (simp add: processRow_def)

lemma find_None_has_key: "find (\<lambda>k. \<not> has_key js k) ks = None \<longleftrightarrow> (\<forall>k \<in> set ks. has_key js k)"
  by (auto simp: find_None_iff)

section \<open>Reading a line that arrives whole\<close>

lemma read_calls_Suc: "read_calls fd (Suc n) = [SYS_poll fd POLLIN, SYS_read fd 1] @ read_calls fd n"
  by (simp add: read_calls_def)

lemma POLLIN_no_error: "\<not> is_poll_error POLLIN"
  by (simp add: is_poll_error_def POLLIN_def POLLERR_def POLLHUP_def POLLNVAL_def)

lemma POLLOUT_no_error: "\<not> is_poll_error POLLOUT"
  by (simp add: is_poll_error_def POLLOUT_def POLLERR_def POLLHUP_def POLLNVAL_def)

lemma stream_bytes_Cons:
  "stream_bytes q = b # s \<Longrightarrow> \<exists>bs q'. q = Transfer (b # bs) # q' \<and> s = bs @ stream_bytes q'"
  by (induction q rule: stream_bytes.induct) auto

lemma nointr_read_byte:
  assumes "stream_bytes (incoming c) = b # s"
  shows "\<exists>q'. nointr_read 1 c =
           (1, [b], c\<lparr>incoming := q',
                      syscalls := syscalls c @ [SYS_poll (m_fd c) POLLIN, SYS_read (m_fd c) 1]\<rparr>)
         \<and> stream_bytes q' = s"
proof -
  from stream_bytes_Cons [OF assms] obtain bs q where
    q: "incoming c = Transfer (b # bs) # q" "s = bs @ stream_bytes q"
    by blast
  show ?thesis
  proof (cases bs)
    case Nil
    with q show ?thesis
      by (intro exI [of _ q])
         (simp add: nointr_read_def wait_for_event_def next_event_def POLLIN_no_error Let_def)
  next
    case (Cons b' bs')
    with q show ?thesis
      by (intro exI [of _ "Transfer bs # q"])
         (simp add: nointr_read_def wait_for_event_def next_event_def POLLIN_no_error Let_def)
  qed
qed

lemma err_marker_iff: "err_marker s \<longleftrightarrow> take 3 s = ''ERR''"
proof (cases s)
  case Nil
  then show ?thesis by (simp add: err_marker_def string_at_def NUL_def)
next
  case (Cons a s1)
  note a = this
  show ?thesis
  proof (cases s1)
    case Nil
    with a show ?thesis by (simp add: err_marker_def string_at_def NUL_def)
  next
    case (Cons b s2)
    note b = this
    show ?thesis
    proof (cases s2)
      case Nil
      with a b show ?thesis by (simp add: err_marker_def string_at_def NUL_def)
    next
      case (Cons c s3)
      with a b show ?thesis by (auto simp: err_marker_def string_at_def)
    qed
  qed
qed

text \<open>The byte the test reads beyond the end of \<open>dest\<close> does not change its outcome.\<close>

lemma err_marker_mem_indep: "dest \<noteq> [] \<Longrightarrow> err_marker_mem mem dest = err_marker dest"
proof (cases dest)
  case Nil
  assume "dest \<noteq> []"
  with Nil show ?thesis by simp
next
  case (Cons a s1)
  note a = this
  show ?thesis
  proof (cases s1)
    case Nil
    with a show ?thesis
      by (simp add: err_marker_def err_marker_mem_def string_at_def string_at_mem_def NUL_def)
  next
    case (Cons b s2)
    with a show ?thesis
      by (cases s2) (auto simp: err_marker_def err_marker_mem_def string_at_def string_at_mem_def NUL_def)
  qed
qed

lemma take3_prefix: "take 3 (dest @ [b]) = ''ERR'' \<Longrightarrow> take 3 (dest @ b # line) = ''ERR''"
  by (cases "length dest < 3") (auto simp: take_Cons' split: if_splits)

lemma readRow_line:
  assumes "LF \<notin> set line" and "take 3 (dest @ line) \<noteq> ''ERR''"
    and "stream_bytes (incoming c) = line @ LF # rest"
  shows "\<exists>q'. readRow dest c =
           (True, dest @ line,
            c\<lparr>incoming := q',
              syscalls := syscalls c @ read_calls (m_fd c) (Suc (length line))\<rparr>)
         \<and> stream_bytes q' = rest"
  using assms
proof (induction line arbitrary: dest c)
  case Nil
  from nointr_read_byte [of c LF rest] Nil.prems obtain q' where
    "nointr_read 1 c =
       (1, [LF], c\<lparr>incoming := q',
                   syscalls := syscalls c @ [SYS_poll (m_fd c) POLLIN, SYS_read (m_fd c) 1]\<rparr>)"
    "stream_bytes q' = rest"
    by auto
  then show ?case
    by (auto simp: readRow.simps [of dest c] LF_def read_calls_def)
next
  case (Cons b line)
  from nointr_read_byte [of c b "line @ LF # rest"] Cons.prems obtain q1 where
    rd: "nointr_read 1 c =
       (1, [b], c\<lparr>incoming := q1,
                  syscalls := syscalls c @ [SYS_poll (m_fd c) POLLIN, SYS_read (m_fd c) 1]\<rparr>)"
    and q1: "stream_bytes q1 = line @ LF # rest"
    by auto
  let ?c1 = "c\<lparr>incoming := q1,
                syscalls := syscalls c @ [SYS_poll (m_fd c) POLLIN, SYS_read (m_fd c) 1]\<rparr>"
  have nolf: "b \<noteq> CHR 0x0A" "LF \<notin> set line"
    using Cons.prems(1) by (auto simp: LF_def)
  have nomark: "\<not> err_marker (dest @ [b])"
    using Cons.prems(2) take3_prefix [of dest b line] by (auto simp: err_marker_iff)
  have step: "readRow dest c = readRow (dest @ [b]) ?c1"
    using rd nolf nomark by (simp add: readRow.simps [of dest c])
  have "take 3 ((dest @ [b]) @ line) \<noteq> ''ERR''"
    using Cons.prems(2) by simp
  from Cons.IH [OF nolf(2) this, of ?c1] q1 obtain q' where
    "readRow (dest @ [b]) ?c1 =
       (True, (dest @ [b]) @ line,
        ?c1\<lparr>incoming := q',
             syscalls := syscalls ?c1 @ read_calls (m_fd ?c1) (Suc (length line))\<rparr>)"
    "stream_bytes q' = rest"
    by auto
  with step show ?case
    by (auto simp: read_calls_Suc)
qed

text \<open>A line is plain when it holds no line feed and does not begin with the marker.\<close>

lemma read_data_line:
  assumes "LF \<notin> set line" and "take 3 line \<noteq> ''ERR''"
    and "stream_bytes (incoming c) = line @ LF # rest"
    and "json_loads ext (cstring line) = Inr js" and "\<not> is_schema js"
  shows "\<exists>q'. read ext c =
           Some (processRow ext js
                   (c\<lparr>incoming := q',
                      syscalls := syscalls c @ read_calls (m_fd c) (Suc (length line))\<rparr>))
         \<and> stream_bytes q' = rest"
proof -
  from readRow_line [of line "[]" c rest] assms(1-3) obtain q' where
    "readRow [] c =
       (True, line,
        c\<lparr>incoming := q', syscalls := syscalls c @ read_calls (m_fd c) (Suc (length line))\<rparr>)"
    "stream_bytes q' = rest"
    by auto
  with assms(4,5) show ?thesis
    by (auto simp: read.simps [of ext c])
qed

lemma read_schema_line:
  assumes "LF \<notin> set line" and "take 3 line \<noteq> ''ERR''"
    and "stream_bytes (incoming c) = line @ LF # rest"
    and "json_loads ext (cstring line) = Inr js" and "is_schema js"
    and "\<forall>v \<in> set (fields_of js). name_usable v"
  shows "\<exists>q'. read ext c =
           read ext (c\<lparr>incoming := q',
                       syscalls := syscalls c @ read_calls (m_fd c) (Suc (length line)),
                       m_schema := line,
                       m_keys := map stored_name (fields_of js),
                       m_types := map stored_type (fields_of js)\<rparr>)
         \<and> stream_bytes q' = rest"
proof -
  from readRow_line [of line "[]" c rest] assms(1-3) obtain q' where
    "readRow [] c =
       (True, line,
        c\<lparr>incoming := q', syscalls := syscalls c @ read_calls (m_fd c) (Suc (length line))\<rparr>)"
    "stream_bytes q' = rest"
    by auto
  with assms(4-6) show ?thesis
    by (auto simp: read.simps [of ext c] processSchema_eq)
qed


section \<open>The example, evaluated\<close>

lemma example_lines_plain:
  "LF \<notin> set example_schema_line" "take 3 example_schema_line \<noteq> ''ERR''"
  "LF \<notin> set example_event_line" "take 3 example_event_line \<noteq> ''ERR''"
  "cstring example_schema_line = example_schema_line"
  "cstring example_event_line = example_event_line"
  "example_schema_line \<noteq> example_event_line"
  by (simp_all add: example_schema_line_def example_event_line_def LF_def cstring_def NUL_def)

lemma example_schema_fields:
  "is_schema example_schema" "\<not> is_schema example_event"
  "\<forall>v \<in> set (fields_of example_schema). name_usable v"
  "map stored_name (fields_of example_schema) = example_keys"
  "map stored_type (fields_of example_schema) = example_types"
  by (simp_all add: is_schema_def example_schema_def example_event_def fields_of_def
      name_usable_def stored_name_def stored_type_def example_keys_def example_types_def
      cstring_def NUL_def)


lemma example_parses:
  "json_loads example_ext example_schema_line = Inr example_schema"
  "json_loads example_ext example_event_line = Inr example_event"
  using example_lines_plain(7) by (auto simp: example_ext_def)

lemma stream_bytes_single: "bytes \<noteq> [] \<Longrightarrow> stream_bytes [Transfer bytes] = bytes"
  by (cases bytes) simp_all

lemma listening_stream:
  "stream_bytes (incoming listening) = example_schema_line @ LF # example_event_line @ LF # []"
  by (simp add: listening_def stream_bytes_single)

lemma read_example:
  assumes "json_loads ext example_schema_line = Inr example_schema"
    and "json_loads ext example_event_line = Inr example_event"
    and "stream_bytes (incoming c) = example_schema_line @ LF # example_event_line @ LF # rest"
  shows "\<exists>c'. read ext c = Some (Some example_row, c') \<and> stream_bytes (incoming c') = rest
           \<and> m_schema c' = example_schema_line"
proof -
  from read_schema_line [OF example_lines_plain(1,2) assms(3), of ext example_schema]
       assms(1) example_lines_plain(5) example_schema_fields
  obtain q1 where
    first: "read ext c =
      read ext (c\<lparr>incoming := q1,
                  syscalls := syscalls c @ read_calls (m_fd c) (Suc (length example_schema_line)),
                  m_schema := example_schema_line,
                  m_keys := example_keys, m_types := example_types\<rparr>)"
    and q1: "stream_bytes q1 = example_event_line @ LF # rest"
    by auto
  let ?c1 = "c\<lparr>incoming := q1,
               syscalls := syscalls c @ read_calls (m_fd c) (Suc (length example_schema_line)),
               m_schema := example_schema_line,
               m_keys := example_keys, m_types := example_types\<rparr>"
  have "stream_bytes (incoming ?c1) = example_event_line @ LF # rest"
    using q1 by simp
  from read_data_line [OF example_lines_plain(3,4) this, of ext example_event]
       assms(2) example_lines_plain(6) example_schema_fields(2)
  obtain q2 where
    second: "read ext ?c1 =
      Some (processRow ext example_event
              (?c1\<lparr>incoming := q2,
                    syscalls := syscalls ?c1 @ read_calls (m_fd ?c1) (Suc (length example_event_line))\<rparr>))"
    and q2: "stream_bytes q2 = rest"
    by auto
  let ?c2 = "?c1\<lparr>incoming := q2,
                syscalls := syscalls ?c1 @ read_calls (m_fd ?c1) (Suc (length example_event_line))\<rparr>"
  have "processRow ext example_event ?c2 = (Some example_row, ?c2\<lparr>m_error := []\<rparr>)"
    by (rule example_processRow) simp_all
  with first second q2 show ?thesis
    by simp
qed

lemma listening_inv: "registry_inv listening" "registry_inv announced" "row_inv example_row"
  by (simp_all add: registry_inv_def row_inv_def listening_def fresh_def announced_def
      new_Connection_def example_keys_def example_types_def example_row_def)

lemma no_address_createConnection:
  "createConnection example_ext no_address announced =
     Some (False, announced\<lparr>m_error := ''Invalid address: 127.0.0.1''\<rparr>)"
  by (simp add: createConnection_def no_address_def announced_def fresh_def new_Connection_def)

lemma announced_requestData:
  "requestData ''t1'' [] announced =
     (True, announced\<lparr>syscalls := [SYS_poll (- 1) POLLOUT]\<rparr>)"
  by (simp add: requestData_def nointr_write_def wait_for_event_def next_event_def Let_def
      announced_def fresh_def new_Connection_def)

lemma announced_closeConnection: "closeConnection announced = announced"
  by (simp add: closeConnection_def announced_def fresh_def new_Connection_def)

section \<open>The socket handle\<close>

lemma wait_for_event_fd:
  "wait_for_event events polled c = (rc, c1) \<Longrightarrow> m_fd c1 = m_fd c"
  by (auto simp: wait_for_event_def Let_def split: prod.splits if_splits)

lemma nointr_read_fd:
  assumes "nointr_read len c = (rc, buf, c')"
  shows "m_fd c' = m_fd c"
proof -
  obtain r c1 where w: "wait_for_event POLLIN (poll_outcome POLLIN (next_event (incoming c))) c = (r, c1)"
    by (cases "wait_for_event POLLIN (poll_outcome POLLIN (next_event (incoming c))) c") auto
  from wait_for_event_fd [OF w] assms w show ?thesis
    by (auto simp: nointr_read_def Let_def split: if_splits io_event.splits)
qed

lemma nointr_write_fd:
  assumes "nointr_write src c = (rc, c')"
  shows "m_fd c' = m_fd c"
proof -
  obtain r c1 where w: "wait_for_event POLLOUT (poll_outcome POLLOUT (next_event (outgoing c))) c = (r, c1)"
    by (cases "wait_for_event POLLOUT (poll_outcome POLLOUT (next_event (outgoing c))) c") auto
  from wait_for_event_fd [OF w] assms w show ?thesis
    by (auto simp: nointr_write_def Let_def split: if_splits io_event.splits)
qed

lemma read_response_fd:
  "read_response m1 m2 c = Some (ok, c') \<Longrightarrow> m_fd c' = m_fd c"
  by (cases "nointr_read READBUF_SIZE c")
     (auto simp: read_response_def split: if_splits dest!: nointr_read_fd)

lemma doAuth_fd:
  "doAuth ext c = Some (ok, c') \<Longrightarrow> m_fd c' = m_fd c"
  by (cases "nointr_write (generateAuthString ext (m_user c) (m_password c)) c")
     (auto simp: doAuth_def Let_def split: if_splits dest!: nointr_write_fd read_response_fd)

lemma doRegistration_fd:
  "doRegistration c = Some (ok, c') \<Longrightarrow> m_fd c' = m_fd c"
  by (cases "nointr_write (REGISTER_MSG @ ''JSON'') c")
     (auto simp: doRegistration_def Let_def split: if_splits
           dest!: nointr_write_fd read_response_fd)

lemma createConnection_fd:
  "createConnection ext env c = Some (ok, c') \<Longrightarrow>
   m_fd c' = (if inet_aton_ok env then socket_fd env else m_fd c)"
  by (auto simp: createConnection_def Let_def split: if_splits option.splits prod.splits
           dest!: doAuth_fd doRegistration_fd)

lemma closeConnection_closed: "m_fd c = - 1 \<Longrightarrow> closeConnection c = c"
  by (simp add: closeConnection_def)

lemma closeConnection_fd: "m_fd (closeConnection c) = - 1"
  by (cases "nointr_write CLOSE_MSG c") (auto simp: closeConnection_def)

lemma refused_createConnection: "createConnection example_ext refusing dialing = Some (False, refused)"
  by (simp add: createConnection_def refusing_def dialing_def refused_def new_Connection_def
      Let_def)

lemma refused_closeConnection:
  "closeConnection refused =
     refused\<lparr>m_fd := - 1, outgoing := [],
             syscalls := [SYS_socket, SYS_connect 3, SYS_poll 3 POLLOUT,
                          SYS_write 3 ''CLOSE'', SYS_close 3]\<rparr>"
  by (simp add: closeConnection_def nointr_write_def wait_for_event_def next_event_def
      POLLOUT_no_error CLOSE_MSG_def Let_def refused_def dialing_def new_Connection_def)

section \<open>Lines that begin with the marker\<close>

text \<open>Whatever follows the marker on the line, \<open>readRow\<close> stops at its third byte, with
  the marker alone in the message and the remainder unread.\<close>

lemma readRow_marker:
  assumes "stream_bytes (incoming c) = ''ERR'' @ rest"
  shows "\<exists>q'. readRow [] c =
           (False, ''ERR'',
            c\<lparr>m_error := ''Server responded with an error: ERR'', incoming := q',
              syscalls := syscalls c @ read_calls (m_fd c) 3\<rparr>)
         \<and> stream_bytes q' = rest"
proof -
  from nointr_read_byte [of c "CHR ''E''" "''RR'' @ rest"] assms obtain q1 where
    r1: "nointr_read 1 c =
       (1, ''E'', c\<lparr>incoming := q1,
                  syscalls := syscalls c @ [SYS_poll (m_fd c) POLLIN, SYS_read (m_fd c) 1]\<rparr>)"
    and q1: "stream_bytes q1 = ''RR'' @ rest"
    by auto
  let ?c1 = "c\<lparr>incoming := q1,
               syscalls := syscalls c @ [SYS_poll (m_fd c) POLLIN, SYS_read (m_fd c) 1]\<rparr>"
  from nointr_read_byte [of ?c1 "CHR ''R''" "''R'' @ rest"] q1 obtain q2 where
    r2: "nointr_read 1 ?c1 =
       (1, ''R'', ?c1\<lparr>incoming := q2,
                  syscalls := syscalls ?c1 @ [SYS_poll (m_fd ?c1) POLLIN, SYS_read (m_fd ?c1) 1]\<rparr>)"
    and q2: "stream_bytes q2 = ''R'' @ rest"
    by auto
  let ?c2 = "?c1\<lparr>incoming := q2,
               syscalls := syscalls ?c1 @ [SYS_poll (m_fd ?c1) POLLIN, SYS_read (m_fd ?c1) 1]\<rparr>"
  from nointr_read_byte [of ?c2 "CHR ''R''" rest] q2 obtain q3 where
    r3: "nointr_read 1 ?c2 =
       (1, ''R'', ?c2\<lparr>incoming := q3,
                  syscalls := syscalls ?c2 @ [SYS_poll (m_fd ?c2) POLLIN, SYS_read (m_fd ?c2) 1]\<rparr>)"
    and q3: "stream_bytes q3 = rest"
    by auto
  have s1: "readRow [] c = readRow ''E'' ?c1"
    using r1 by (simp add: readRow.simps [of "[]" c] err_marker_iff)
  have s2: "readRow ''E'' ?c1 = readRow ''ER'' ?c2"
    using r2 by (subst readRow.simps) (simp add: err_marker_iff)
  have s3: "readRow ''ER'' ?c2 =
      (False, ''ERR'',
       c\<lparr>m_error := ''Server responded with an error: ERR'', incoming := q3,
         syscalls := syscalls c @ read_calls (m_fd c) 3\<rparr>)"
    using r3 by (subst readRow.simps) (simp add: err_marker_iff read_calls_def numeral_3_eq_3)
  from s1 s2 s3 q3 show ?thesis
    by auto
qed

lemma nointr_read_head:
  assumes "incoming c = Transfer (b # b' # bs) # q"
  shows "nointr_read 1 c =
     (1, [b], c\<lparr>incoming := Transfer (b' # bs) # q,
                syscalls := syscalls c @ [SYS_poll (m_fd c) POLLIN, SYS_read (m_fd c) 1]\<rparr>)"
  using assms
  by (simp add: nointr_read_def wait_for_event_def next_event_def POLLIN_no_error Let_def)

lemma readRow_marker_head:
  assumes "incoming c = Transfer (''ERR'' @ b # bs) # q"
  shows "readRow [] c =
     (False, ''ERR'',
      c\<lparr>m_error := ''Server responded with an error: ERR'', incoming := Transfer (b # bs) # q,
        syscalls := syscalls c @ read_calls (m_fd c) 3\<rparr>)"
proof -
  let ?c1 = "c\<lparr>incoming := Transfer (''RR'' @ b # bs) # q,
               syscalls := syscalls c @ [SYS_poll (m_fd c) POLLIN, SYS_read (m_fd c) 1]\<rparr>"
  let ?c2 = "?c1\<lparr>incoming := Transfer (''R'' @ b # bs) # q,
               syscalls := syscalls ?c1 @ [SYS_poll (m_fd ?c1) POLLIN, SYS_read (m_fd ?c1) 1]\<rparr>"
  have r1: "nointr_read 1 c = (1, ''E'', ?c1)"
    using nointr_read_head [of c "CHR ''E''" "CHR ''R''" "''R'' @ b # bs" q] assms by simp
  have r2: "nointr_read 1 ?c1 = (1, ''R'', ?c2)"
    using nointr_read_head [of ?c1 "CHR ''R''" "CHR ''R''" "b # bs" q] by simp
  have r3: "nointr_read 1 ?c2 =
      (1, ''R'', ?c2\<lparr>incoming := Transfer (b # bs) # q,
                 syscalls := syscalls ?c2 @ [SYS_poll (m_fd ?c2) POLLIN, SYS_read (m_fd ?c2) 1]\<rparr>)"
    using nointr_read_head [of ?c2 "CHR ''R''" b bs q] by simp
  have s1: "readRow [] c = readRow ''E'' ?c1"
    using r1 by (subst readRow.simps) (simp add: err_marker_iff)
  have s2: "readRow ''E'' ?c1 = readRow ''ER'' ?c2"
    using r2 by (subst readRow.simps) (simp add: err_marker_iff)
  have s3: "readRow ''ER'' ?c2 =
      (False, ''ERR'',
       c\<lparr>m_error := ''Server responded with an error: ERR'', incoming := Transfer (b # bs) # q,
         syscalls := syscalls c @ read_calls (m_fd c) 3\<rparr>)"
    using r3 by (subst readRow.simps) (simp add: err_marker_iff read_calls_def numeral_3_eq_3)
  from s1 s2 s3 show ?thesis
    by simp
qed

section \<open>The shape of an announcement\<close>

lemma map_of_key: "(\<exists>y. map_of kvs k = Some y) = (k \<in> fst ` set kvs)"
  using map_of_eq_None_iff [of kvs k] by auto

lemma is_schema_shaped: "is_schema js = schema_shaped js"
proof (cases js)
  case (JSON_OBJECT kvs)
  show ?thesis
  proof (cases "map_of kvs ''fields''")
    case None
    with JSON_OBJECT show ?thesis
      by (simp add: is_schema_def schema_shaped_def)
  next
    case (Some j)
    show ?thesis
    proof (cases j)
      case (JSON_ARRAY es)
      show ?thesis
      proof (cases es)
        case Nil
        with JSON_OBJECT Some JSON_ARRAY show ?thesis
          by (simp add: is_schema_def schema_shaped_def)
      next
        case (Cons first others)
        with JSON_OBJECT Some JSON_ARRAY show ?thesis
          by (cases first) (simp_all add: is_schema_def schema_shaped_def map_of_key)
      qed
    qed (use JSON_OBJECT Some in \<open>simp_all add: is_schema_def schema_shaped_def\<close>)
  qed
qed (simp_all add: is_schema_def schema_shaped_def)

lemma expecting_stream: "stream_bytes (incoming expecting) = example_event_line @ LF # []"
  by (simp add: expecting_def stream_bytes_single)

section \<open>Hexadecimal digits and what is written\<close>

lemma high_nibble: "unat (drop_bit 4 (b :: 8 word)) = unat b div 16"
  by (simp add: drop_bit_eq_div unat_div)

lemma low_nibble: "unat ((b :: 8 word) AND 0x0f) = unat b mod 16"
proof -
  have "b AND 0x0f = take_bit 4 b"
    by (simp add: take_bit_eq_mask mask_eq_exp_minus_1)
  then show ?thesis
    by (simp add: take_bit_eq_mod unat_mod)
qed

lemma bin2hex_hex_encode: "bin2hex bs = hex_encode bs"
  by (induction bs)
     (simp_all add: hex_encode_def hex_byte_def hex_digit_def hexconvtab_def high_nibble low_nibble)

lemma length_hex_encode: "length (hex_encode bs) = 2 * length bs"
  by (induction bs) (simp_all add: hex_encode_def hex_byte_def)

lemma hex_digits: "list_all (\<lambda>n. hex_digit n \<in> set ''0123456789abcdef'') [0..<16]"
  by code_simp

lemma hex_digit_lower: "n < 16 \<Longrightarrow> hex_digit n \<in> set ''0123456789abcdef''"
  using hex_digits by (simp add: list_all_iff)

lemma unat_byte_div: "unat (b :: 8 word) div 16 < 16"
proof -
  have "unat b < 256"
    using unsigned_less [of b] by simp
  then show ?thesis by simp
qed

lemma hex_encode_lower: "set (hex_encode bs) \<subseteq> set ''0123456789abcdef''"
proof (induction bs)
  case Nil
  show ?case by (simp add: hex_encode_def)
next
  case (Cons b bs)
  have "set (hex_byte b) \<subseteq> set ''0123456789abcdef''"
    using hex_digit_lower [OF unat_byte_div [of b]] hex_digit_lower [of "unat b mod 16"]
    by (simp add: hex_byte_def)
  with Cons show ?case
    by (simp add: hex_encode_def)
qed

lemma written_append: "written (xs @ ys) = written xs @ written ys"
  by (induction xs rule: written.induct) simp_all

lemma wait_for_event_written:
  "wait_for_event events polled c = (rc, c1) \<Longrightarrow> written (syscalls c1) = written (syscalls c)"
  by (auto simp: wait_for_event_def Let_def written_append split: prod.splits if_splits)

lemma nointr_read_written:
  assumes "nointr_read len c = (rc, buf, c')"
  shows "written (syscalls c') = written (syscalls c)"
proof -
  obtain r c1 where w: "wait_for_event POLLIN (poll_outcome POLLIN (next_event (incoming c))) c = (r, c1)"
    by (cases "wait_for_event POLLIN (poll_outcome POLLIN (next_event (incoming c))) c") auto
  from wait_for_event_written [OF w] assms w show ?thesis
    by (auto simp: nointr_read_def Let_def written_append split: if_splits io_event.splits)
qed

lemma read_response_written:
  "read_response m1 m2 c = Some (ok, c') \<Longrightarrow> written (syscalls c') = written (syscalls c)"
  by (cases "nointr_read READBUF_SIZE c")
     (auto simp: read_response_def split: if_splits dest!: nointr_read_written)

lemma nointr_write_written:
  assumes "next_event (outgoing c) = Transfer n" and "nointr_write src c = (rc, c')"
  shows "written (syscalls c') = written (syscalls c) @ [src]"
  using assms
  by (auto simp: nointr_write_def wait_for_event_def POLLOUT_no_error Let_def written_append)

lemma doAuth_written:
  assumes "next_event (outgoing c) = Transfer n" and "doAuth ext c = Some (ok, c')"
  shows "written (syscalls c') =
     written (syscalls c) @ [generateAuthString ext (m_user c) (m_password c)]"
proof -
  obtain rc c1 where w: "nointr_write (generateAuthString ext (m_user c) (m_password c)) c = (rc, c1)"
    by (cases "nointr_write (generateAuthString ext (m_user c) (m_password c)) c") auto
  note wr = nointr_write_written [OF assms(1) w]
  show ?thesis
  proof (cases "rc = - 1")
    case True
    with assms(2) w wr show ?thesis
      by (auto simp: doAuth_def Let_def)
  next
    case False
    with assms(2) w have "read_response ''Failed to read authentication response: ''
        ''Authentication failed: '' c1 = Some (ok, c')"
      by (simp add: doAuth_def Let_def)
    from read_response_written [OF this] wr show ?thesis
      by simp
  qed
qed

lemma generateAuthString_hex:
  "generateAuthString ext user password =
     hex_encode (bytes_of (user @ '':'')) @
     hex_encode (take SHA_DIGEST_LENGTH (SHA1 ext (bytes_of password)))"
  by (simp add: generateAuthString_def Let_def bin2hex_hex_encode)

lemma example_token:
  "generateAuthString example_ext ''maxscale'' ''maxscale'' =
     ''6d61787363616c653a0000000000000000000000000000000000000000''"
  by code_simp

lemma example_digest: "length (SHA1 example_ext (bytes_of ''maxscale'')) = SHA_DIGEST_LENGTH"
  by (simp add: example_ext_def SHA_DIGEST_LENGTH_def)

lemma authenticating_doAuth:
  "doAuth example_ext authenticating =
     Some (True, authenticating\<lparr>incoming := [], outgoing := [],
       syscalls := [SYS_poll 3 POLLOUT,
                    SYS_write 3 ''6d61787363616c653a0000000000000000000000000000000000000000'',
                    SYS_poll 3 POLLIN, SYS_read 3 1024]\<rparr>)"
proof -
  have user: "m_user authenticating = ''maxscale''" "m_password authenticating = ''maxscale''"
    by (simp_all add: authenticating_def new_Connection_def)
  show ?thesis
    unfolding doAuth_def user example_token
    by (simp add: nointr_write_def nointr_read_def read_response_def wait_for_event_def
        next_event_def POLLOUT_no_error POLLIN_no_error Let_def authenticating_def
        new_Connection_def READBUF_SIZE_def OK_RESPONSE_def LF_def)
qed

section \<open>Reachable states\<close>

lemma reachable_inv: "reachable ext c \<Longrightarrow> registry_inv c"
proof (induction rule: reachable.induct)
  case (reach_new address port user password timeout rx tx)
  show ?case
    by (simp add: registry_inv_def new_Connection_def)
next
  case (reach_createConnection c env ok c')
  with createConnection_registry [of ext env c ok c'] show ?case
    by (simp add: registry_def registry_inv_def)
next
  case (reach_requestData c table g ok c')
  with requestData_registry [of table g c ok c'] show ?case
    by (simp add: registry_def registry_inv_def)
next
  case (reach_read c row c')
  with read_inv [of c ext row c'] show ?case
    by simp
next
  case (reach_closeConnection c)
  with closeConnection_registry [of c] show ?case
    by (simp add: registry_def registry_inv_def)
next
  case (reach_environment c rx tx)
  then show ?case
    by (simp add: registry_inv_def)
qed

section \<open>read skips schema announcements\<close>




section \<open>Error lines from the server\<close>

text \<open>
  C2, evaluated on the line \<open>ERR: no such table\<close>. \<open>readRow\<close> fails as soon as the third
  byte of the marker has been appended: the error message is
  \<open>Server responded with an error: ERR\<close> and the remainder of the line is still waiting
  on the socket, so the message does not hold \<open>no such table\<close>. \<open>read\<close> returns no Row and
  leaves that message.
\<close>

theorem readRow_error_line:
  "readRow [] complaining =
     (False, ''ERR'',
      complaining\<lparr>m_error := ''Server responded with an error: ERR'',
                  incoming := [Transfer ('': no such table'' @ [LF])],
                  syscalls := read_calls (- 1) 3\<rparr>)
   \<and> read example_ext complaining =
       Some (None,
         complaining\<lparr>m_error := ''Server responded with an error: ERR'',
                     incoming := [Transfer ('': no such table'' @ [LF])],
                     syscalls := read_calls (- 1) 3\<rparr>)
   \<and> getError (complaining\<lparr>m_error := ''Server responded with an error: ERR'',
                  incoming := [Transfer ('': no such table'' @ [LF])],
                  syscalls := read_calls (- 1) 3\<rparr>) = ''Server responded with an error: ERR''"
proof -
  have "incoming complaining = Transfer (''ERR'' @ CHR '':'' # '' no such table'' @ [LF]) # []"
    by (simp add: complaining_def)
  from readRow_marker_head [OF this]
  have rr: "readRow [] complaining =
     (False, ''ERR'',
      complaining\<lparr>m_error := ''Server responded with an error: ERR'',
                  incoming := [Transfer ('': no such table'' @ [LF])],
                  syscalls := read_calls (- 1) 3\<rparr>)"
    by (simp add: complaining_def fresh_def new_Connection_def)
  then show ?thesis
    by (simp add: read.simps [of example_ext complaining] getError_def)
qed

section \<open>The authentication token\<close>

text \<open>
  C3. The token is a function of the user and the password alone (and of the digest
  function): the lower-case hexadecimal encoding of the bytes of the user followed by a
  colon, then that of the first twenty bytes \<open>SHA1\<close> yields for the bytes of the
  password, which is all of the digest when it has twenty bytes; it then has two digits
  for every byte of the user and 42 more, all of them from \<open>0123456789abcdef\<close>. When the
  socket accepts the write, what \<open>doAuth\<close> writes is this token and nothing else.
\<close>

theorem generateAuthString_token:
  "generateAuthString ext user password =
     hex_encode (bytes_of (user @ '':'')) @
     hex_encode (take SHA_DIGEST_LENGTH (SHA1 ext (bytes_of password)))
   \<and> (length (SHA1 ext (bytes_of password)) = SHA_DIGEST_LENGTH \<longrightarrow>
        generateAuthString ext user password =
          hex_encode (bytes_of (user @ '':'')) @ hex_encode (SHA1 ext (bytes_of password)) \<and>
        length (generateAuthString ext user password) = 2 * length user + 42)
   \<and> set (generateAuthString ext user password) \<subseteq> set ''0123456789abcdef''
   \<and> (next_event (outgoing c) = Transfer n \<and> doAuth ext c = Some (ok, c') \<longrightarrow>
        written (syscalls c') =
          written (syscalls c) @ [generateAuthString ext (m_user c) (m_password c)])"
proof (intro conjI impI)
  show "generateAuthString ext user password =
     hex_encode (bytes_of (user @ '':'')) @
     hex_encode (take SHA_DIGEST_LENGTH (SHA1 ext (bytes_of password)))"
    by (rule generateAuthString_hex)
  show "generateAuthString ext user password =
      hex_encode (bytes_of (user @ '':'')) @ hex_encode (SHA1 ext (bytes_of password))"
    if "length (SHA1 ext (bytes_of password)) = SHA_DIGEST_LENGTH"
    using that by (simp add: generateAuthString_hex)
  show "length (generateAuthString ext user password) = 2 * length user + 42"
    if "length (SHA1 ext (bytes_of password)) = SHA_DIGEST_LENGTH"
    using that
    by (simp add: generateAuthString_hex length_hex_encode bytes_of_def SHA_DIGEST_LENGTH_def)
  show "set (generateAuthString ext user password) \<subseteq> set ''0123456789abcdef''"
    using hex_encode_lower [of "bytes_of (user @ '':'')"]
      hex_encode_lower [of "take SHA_DIGEST_LENGTH (SHA1 ext (bytes_of password))"]
    by (simp add: generateAuthString_hex del: set_simps list.set)
  show "written (syscalls c') =
      written (syscalls c) @ [generateAuthString ext (m_user c) (m_password c)]"
    if "next_event (outgoing c) = Transfer n \<and> doAuth ext c = Some (ok, c')"
    using that doAuth_written [of c n ext ok c'] by blast
qed

theorem generateAuthString_token_witness:
  "length (SHA1 example_ext (bytes_of ''maxscale'')) = SHA_DIGEST_LENGTH
   \<and> generateAuthString example_ext ''maxscale'' ''maxscale'' =
       hex_encode (bytes_of ''maxscale:'') @ hex_encode (SHA1 example_ext (bytes_of ''maxscale''))
   \<and> generateAuthString example_ext ''maxscale'' ''maxscale'' =
       ''6d61787363616c653a0000000000000000000000000000000000000000''
   \<and> length (generateAuthString example_ext ''maxscale'' ''maxscale'') = 58
   \<and> next_event (outgoing authenticating) = Transfer 58
   \<and> (\<exists>c'. doAuth example_ext authenticating = Some (True, c') \<and>
         written (syscalls c') =
           [''6d61787363616c653a0000000000000000000000000000000000000000''])"
proof -
  have ready: "next_event (outgoing authenticating) = Transfer 58"
    by (simp add: authenticating_def new_Connection_def next_event_def)
  have user: "m_user authenticating = ''maxscale''" "m_password authenticating = ''maxscale''"
    "written (syscalls authenticating) = []"
    by (simp_all add: authenticating_def new_Connection_def)
  note token = generateAuthString_token [where ext = example_ext and user = "''maxscale''"
      and password = "''maxscale''" and c = authenticating and n = 58 and ok = True]
  from token [where c' = authenticating, THEN conjunct2, THEN conjunct1] example_digest
  have full: "generateAuthString example_ext ''maxscale'' ''maxscale'' =
       hex_encode (bytes_of (''maxscale'' @ '':'')) @
       hex_encode (SHA1 example_ext (bytes_of ''maxscale''))"
    and len: "length (generateAuthString example_ext ''maxscale'' ''maxscale'') =
       2 * length ''maxscale'' + 42"
    by blast+
  from full have a: "generateAuthString example_ext ''maxscale'' ''maxscale'' =
       hex_encode (bytes_of ''maxscale:'') @ hex_encode (SHA1 example_ext (bytes_of ''maxscale''))"
    by simp
  from len have b: "length (generateAuthString example_ext ''maxscale'' ''maxscale'') = 58"
    by simp
  let ?c' = "authenticating\<lparr>incoming := [], outgoing := [],
       syscalls := [SYS_poll 3 POLLOUT,
                    SYS_write 3 ''6d61787363616c653a0000000000000000000000000000000000000000'',
                    SYS_poll 3 POLLIN, SYS_read 3 1024]\<rparr>"
  from token [where c' = ?c', THEN conjunct2, THEN conjunct2, THEN conjunct2]
       ready authenticating_doAuth
  have "written (syscalls ?c') =
      written (syscalls authenticating) @
      [generateAuthString example_ext (m_user authenticating) (m_password authenticating)]"
    by blast
  then have "written (syscalls ?c') =
      [''6d61787363616c653a0000000000000000000000000000000000000000'']"
    unfolding user example_token by simp
  with authenticating_doAuth
  have "\<exists>c'. doAuth example_ext authenticating = Some (True, c') \<and>
         written (syscalls c') =
           [''6d61787363616c653a0000000000000000000000000000000000000000'']"
    by blast
  with a b example_digest example_token ready show ?thesis
    by blast
qed

section \<open>Replacing the registry\<close>

text \<open>
  C4 (as amended). For an announcement in which the \<open>"name"\<close> of every element of
  \<open>"fields"\<close> is absent or a JSON string, \<open>processSchema\<close> replaces the registry and changes
  nothing else: in the order of the array, the stored name is the string under \<open>"name"\<close>
  up to its first NUL byte (empty when \<open>"name"\<close> is absent), and the stored type is the
  string under \<open>"real_type"\<close> up to its first NUL byte, \<open>"char(50)"\<close> when \<open>"real_type"\<close> is
  present and not a string, and without \<open>"real_type"\<close> the string under \<open>"type"\<close> up to its
  first NUL byte, \<open>"char(50)"\<close> when \<open>"type"\<close> is not a string, \<open>"undefined"\<close> when both keys
  are missing.
\<close>

theorem processSchema_registry:
  assumes "\<forall>v \<in> set (fields_of js). name_usable v"
  shows "processSchema js c =
     Some (c\<lparr>m_keys := map stored_name (fields_of js), m_types := map stored_type (fields_of js)\<rparr>)"
  using assms by (simp add: processSchema_eq)

theorem processSchema_registry_witness:
  "list_all name_usable (fields_of example_schema)
   \<and> processSchema example_schema fresh = Some announced"
proof -
  have usable: "\<forall>v \<in> set (fields_of example_schema). name_usable v"
    by (simp add: fields_of_def example_schema_def name_usable_def)
  have "map stored_name (fields_of example_schema) = example_keys"
    by (simp add: fields_of_def example_schema_def stored_name_def example_keys_def
        cstring_def NUL_def)
  moreover have "map stored_type (fields_of example_schema) = example_types"
    by (simp add: fields_of_def example_schema_def stored_type_def example_types_def
        cstring_def NUL_def)
  ultimately show ?thesis
    using processSchema_registry [OF usable, of fresh] usable
    by (simp add: announced_def list_all_iff)
qed

text \<open>
  As first stated the property fails on three announcements: a \<open>"real_type"\<close> that is a
  number is stored as \<open>"char(50)"\<close>, not as its value; a \<open>"name"\<close> that is a number makes
  \<open>processSchema\<close> construct a string from a null pointer; and of a \<open>"name"\<close> holding a NUL
  byte only the bytes before it are stored.
\<close>

theorem processSchema_claimed_counterexample:
  "is_schema numeric_real_type
   \<and> processSchema numeric_real_type fresh =
       Some (fresh\<lparr>m_keys := [''a''], m_types := [''char(50)'']\<rparr>)
   \<and> \<not> claimed_registry numeric_real_type (fresh\<lparr>m_keys := [''a''], m_types := [''char(50)'']\<rparr>)
   \<and> is_schema numeric_name
   \<and> processSchema numeric_name fresh = None
   \<and> is_schema nul_name
   \<and> processSchema nul_name fresh = Some (fresh\<lparr>m_keys := [''a''], m_types := [''int'']\<rparr>)
   \<and> \<not> claimed_registry nul_name (fresh\<lparr>m_keys := [''a''], m_types := [''int'']\<rparr>)"
proof -
  have 1: "is_schema numeric_real_type" "is_schema numeric_name" "is_schema nul_name"
    by (simp_all add: is_schema_def numeric_real_type_def numeric_name_def nul_name_def)
  have 2: "processSchema numeric_real_type fresh =
       Some (fresh\<lparr>m_keys := [''a''], m_types := [''char(50)'']\<rparr>)"
    by (simp add: processSchema_eq fields_of_def numeric_real_type_def name_usable_def
        stored_name_def stored_type_def cstring_def NUL_def)
  have 3: "\<not> claimed_registry numeric_real_type (fresh\<lparr>m_keys := [''a''], m_types := [''char(50)'']\<rparr>)"
    by (simp add: claimed_registry_def claimed_field_def fields_of_def numeric_real_type_def)
  have 4: "processSchema numeric_name fresh = None"
    by (simp add: processSchema_eq fields_of_def numeric_name_def name_usable_def)
  have 5: "processSchema nul_name fresh = Some (fresh\<lparr>m_keys := [''a''], m_types := [''int'']\<rparr>)"
    by (simp add: processSchema_eq fields_of_def nul_name_def name_usable_def
        stored_name_def stored_type_def cstring_def NUL_def)
  have 6: "\<not> claimed_registry nul_name (fresh\<lparr>m_keys := [''a''], m_types := [''int'']\<rparr>)"
    by (simp add: claimed_registry_def claimed_field_def fields_of_def nul_name_def NUL_def)
  from 1 2 3 4 5 6 show ?thesis
    by blast
qed

section \<open>Telling announcements from data events\<close>

text \<open>
  C5. \<open>is_schema\<close> holds of a parsed value exactly when it is an object with a
  \<open>"fields"\<close> key whose value is a non-empty array whose first element is an object with
  a \<open>"name"\<close> key. When a line without the error marker arrives and parses to a value
  that is not of this shape, \<open>read\<close> consumes the line and returns what \<open>processRow\<close> makes
  of the value under the registry as it stands.
\<close>

theorem is_schema_dispatch:
  "is_schema js = schema_shaped js
   \<and> (LF \<notin> set line \<and> take 3 line \<noteq> ''ERR'' \<and> stream_bytes (incoming c) = line @ LF # rest \<and>
      json_loads ext (cstring line) = Inr js \<and> \<not> schema_shaped js \<longrightarrow>
        (\<exists>c1. registry c1 = registry c \<and> stream_bytes (incoming c1) = rest \<and>
           read ext c = Some (processRow ext js c1)))"
proof (intro conjI impI)
  show "is_schema js = schema_shaped js"
    by (rule is_schema_shaped)
next
  assume a: "LF \<notin> set line \<and> take 3 line \<noteq> ''ERR'' \<and>
    stream_bytes (incoming c) = line @ LF # rest \<and>
    json_loads ext (cstring line) = Inr js \<and> \<not> schema_shaped js"
  then have "\<not> is_schema js"
    by (simp add: is_schema_shaped)
  from read_data_line [of line c rest ext js] a this obtain q' where
    rd: "read ext c =
      Some (processRow ext js
              (c\<lparr>incoming := q',
                 syscalls := syscalls c @ read_calls (m_fd c) (Suc (length line))\<rparr>))"
    and q': "stream_bytes q' = rest"
    by auto
  let ?c1 = "c\<lparr>incoming := q', syscalls := syscalls c @ read_calls (m_fd c) (Suc (length line))\<rparr>"
  have "registry ?c1 = registry c \<and> stream_bytes (incoming ?c1) = rest"
    using q' by (simp add: registry_def)
  with rd show "\<exists>c1. registry c1 = registry c \<and> stream_bytes (incoming c1) = rest \<and>
      read ext c = Some (processRow ext js c1)"
    by blast
qed

theorem is_schema_dispatch_witness:
  "is_schema example_schema \<and> schema_shaped example_schema
   \<and> LF \<notin> set example_event_line \<and> take 3 example_event_line \<noteq> ''ERR''
   \<and> stream_bytes (incoming expecting) = example_event_line @ LF # []
   \<and> json_loads example_ext (cstring example_event_line) = Inr example_event
   \<and> \<not> schema_shaped example_event
   \<and> (\<exists>c1. registry c1 = registry expecting \<and>
         read example_ext expecting = Some (processRow example_ext example_event c1) \<and>
         processRow example_ext example_event c1 = (Some example_row, c1\<lparr>m_error := []\<rparr>))"
proof -
  note d = is_schema_dispatch [of example_event example_event_line expecting "[]" example_ext]
  have shaped: "schema_shaped example_schema"
    using is_schema_dispatch [of example_schema] example_schema_fields(1) by blast
  have unshaped: "\<not> schema_shaped example_event"
    using d example_schema_fields(2) by blast
  have parsed: "json_loads example_ext (cstring example_event_line) = Inr example_event"
    using example_parses(2) by (simp add: example_lines_plain(6))
  from d example_lines_plain(3,4) expecting_stream parsed unshaped
  obtain c1 where c1: "registry c1 = registry expecting"
    "read example_ext expecting = Some (processRow example_ext example_event c1)"
    by blast
  from c1(1) have "m_keys c1 = example_keys" "m_types c1 = example_types"
    by (simp_all add: registry_def expecting_def announced_def)
  from example_processRow [OF this, of example_ext]
  have "processRow example_ext example_event c1 = (Some example_row, c1\<lparr>m_error := []\<rparr>)" .
  with c1 shaped unshaped parsed example_lines_plain(3,4) expecting_stream
    example_schema_fields(1)
  show ?thesis
    by blast
qed

section \<open>Converting the values of a data event\<close>

text \<open>
  C6 (as amended). \<open>json_to_string\<close> turns a JSON string into its bytes before the first
  NUL byte, which is the string itself when it holds none; an integer into its decimal
  text, which reads back as the integer; a real into the text the stream gives the
  double; the booleans into \<open>true\<close> and \<open>false\<close>; null, objects and arrays into the empty
  string. When a name of the registry has no key in the object, \<open>processRow\<close> returns no
  Row and the error names the first such name; otherwise the Row holds the registry's
  names and types and one converted value per name.
\<close>

theorem processRow_conversion:
  "json_to_string ext (JSON_STRING s) = cstring s
   \<and> (NUL \<notin> set s \<longrightarrow> json_to_string ext (JSON_STRING s) = s)
   \<and> json_to_string ext (JSON_INTEGER i) = integer_text (sint i)
   \<and> text_integer (json_to_string ext (JSON_INTEGER i)) = sint i
   \<and> json_to_string ext (JSON_REAL x) = real_text ext x
   \<and> json_to_string ext JSON_TRUE = ''true''
   \<and> json_to_string ext JSON_FALSE = ''false''
   \<and> json_to_string ext JSON_NULL = []
   \<and> json_to_string ext (JSON_OBJECT kvs) = []
   \<and> json_to_string ext (JSON_ARRAY es) = []
   \<and> (find (\<lambda>k. \<not> has_key js k) (m_keys c) = Some k \<longrightarrow>
        processRow ext js c = (None, c\<lparr>m_error := ''No value for key found: '' @ k\<rparr>))
   \<and> (find (\<lambda>k. \<not> has_key js k) (m_keys c) = None \<longrightarrow>
        processRow ext js c =
          (Some \<lparr>row_keys = m_keys c, row_types = m_types c,
                 row_values = map (field_text ext js) (m_keys c)\<rparr>, c\<lparr>m_error := []\<rparr>))"
  using processRow_first_missing [of js c k ext] processRow_complete [of c js ext]
  by (simp add: cstring_id text_integer_text find_None_has_key)

theorem processRow_conversion_witness:
  "NUL \<notin> set ''hello''
   \<and> json_to_string example_ext (JSON_STRING ''hello'') = ''hello''
   \<and> find (\<lambda>k. \<not> has_key short_event k) (m_keys announced) = Some ''server_id''
   \<and> processRow example_ext short_event announced =
       (None, announced\<lparr>m_error := ''No value for key found: server_id''\<rparr>)
   \<and> find (\<lambda>k. \<not> has_key example_event k) (m_keys announced) = None
   \<and> processRow example_ext example_event announced =
       (Some example_row, announced\<lparr>m_error := []\<rparr>)"
proof -
  have nonul: "NUL \<notin> set ''hello''"
    by (simp add: NUL_def)
  have missing: "find (\<lambda>k. \<not> has_key short_event k) (m_keys announced) = Some ''server_id''"
    by (simp add: has_key_def short_event_def announced_def example_keys_def cstring_def NUL_def)
  have complete: "find (\<lambda>k. \<not> has_key example_event k) (m_keys announced) = None"
    by (simp add: has_key_def example_event_def announced_def example_keys_def cstring_def NUL_def)
  have row: "\<lparr>row_keys = m_keys announced, row_types = m_types announced,
              row_values = map (field_text example_ext example_event) (m_keys announced)\<rparr> =
             example_row"
    using example_field_texts [of example_ext] by (simp add: announced_def example_row_def)
  from processRow_conversion [of example_ext "''hello''" _ _ _ _ short_event announced "''server_id''"]
       nonul missing
  have a: "json_to_string example_ext (JSON_STRING ''hello'') = ''hello''
      \<and> processRow example_ext short_event announced =
          (None, announced\<lparr>m_error := ''No value for key found: server_id''\<rparr>)"
    by simp
  from processRow_conversion [of example_ext _ _ _ _ _ example_event announced] complete row
  have "processRow example_ext example_event announced =
          (Some example_row, announced\<lparr>m_error := []\<rparr>)"
    by simp
  with a nonul missing complete show ?thesis
    by blast
qed

text \<open>As first stated, with every JSON string passed through unchanged, the property fails
  for a string that holds a NUL byte: only the bytes before it reach the Row.\<close>

theorem json_to_string_passthrough_counterexample:
  "json_to_string example_ext (JSON_STRING nul_string) = ''a''
   \<and> json_to_string example_ext (JSON_STRING nul_string) \<noteq> nul_string"
  by (simp add: nul_string_def cstring_def NUL_def)

section \<open>Old rows and new schemas\<close>

text \<open>
  C7. After schema A has been announced, a Row built under it, and schema B announced,
  the registry holds exactly the names and types of B's fields, and the Row, which holds
  its own copies of the vectors, still reports A's names, A's types and the values
  converted under A.
\<close>

theorem schema_replacement:
  assumes "processSchema A c0 = Some c1" and "processRow ext ev c1 = (Some r, c2)"
    and "processSchema B c2 = Some c3"
  shows "m_keys c3 = map stored_name (fields_of B) \<and> m_types c3 = map stored_type (fields_of B)
       \<and> row_keys r = map stored_name (fields_of A) \<and> row_types r = map stored_type (fields_of A)
       \<and> row_values r = map (field_text ext ev) (map stored_name (fields_of A))"
proof -
  from assms(1) have c1: "m_keys c1 = map stored_name (fields_of A)"
    "m_types c1 = map stored_type (fields_of A)"
    by (auto simp: processSchema_eq split: if_splits)
  from assms(3) have c3: "m_keys c3 = map stored_name (fields_of B)"
    "m_types c3 = map stored_type (fields_of B)"
    by (auto simp: processSchema_eq split: if_splits)
  from processRow_Some(1) [OF assms(2)] c1 c3 show ?thesis
    by simp
qed

theorem schema_replacement_witness:
  "processSchema example_schema fresh = Some announced
   \<and> processRow example_ext example_event announced = (Some example_row, announced\<lparr>m_error := []\<rparr>)
   \<and> processSchema numeric_real_type (announced\<lparr>m_error := []\<rparr>) =
       Some (announced\<lparr>m_error := [], m_keys := [''a''], m_types := [''char(50)'']\<rparr>)
   \<and> m_keys (announced\<lparr>m_error := [], m_keys := [''a''], m_types := [''char(50)'']\<rparr>) =
       map stored_name (fields_of numeric_real_type)
   \<and> map stored_name (fields_of numeric_real_type) = [''a'']
   \<and> row_keys example_row = map stored_name (fields_of example_schema)
   \<and> row_types example_row = map stored_type (fields_of example_schema)
   \<and> row_keys example_row = [''domain'', ''server_id'', ''sequence'', ''col1'']"
proof -
  have a: "processSchema example_schema fresh = Some announced"
    using example_schema_fields by (simp add: processSchema_eq announced_def)
  have b: "processRow example_ext example_event announced =
      (Some example_row, announced\<lparr>m_error := []\<rparr>)"
    by (rule example_processRow [OF announced_registry])
  have n: "map stored_name (fields_of numeric_real_type) = [''a'']"
    "map stored_type (fields_of numeric_real_type) = [''char(50)'']"
    "\<forall>v \<in> set (fields_of numeric_real_type). name_usable v"
    by (simp_all add: fields_of_def numeric_real_type_def stored_name_def stored_type_def
        name_usable_def cstring_def NUL_def)
  have c: "processSchema numeric_real_type (announced\<lparr>m_error := []\<rparr>) =
      Some (announced\<lparr>m_error := [], m_keys := [''a''], m_types := [''char(50)'']\<rparr>)"
    using n by (simp add: processSchema_eq)
  have k: "row_keys example_row = [''domain'', ''server_id'', ''sequence'', ''col1'']"
    by (simp add: example_row_def example_keys_def)
  from schema_replacement [OF a b c] a b c n(1) k show ?thesis
    by simp
qed

section \<open>The two invariants\<close>

text \<open>
  C8. The constructor gives a registry whose name list and type list have the same
  length; \<open>createConnection\<close>, \<open>requestData\<close>, \<open>closeConnection\<close> and \<open>read\<close> keep it so
  (they touch the registry only through \<open>processSchema\<close>, which leaves the two lists of
  equal length whatever they were before), and so does \<open>processRow\<close>; the accessors
  change nothing. So the two lists have the same length in every reachable state, and
  every Row that \<open>processRow\<close> or \<open>read\<close> builds there has as many values as names and as
  many names as types.
\<close>

theorem registry_invariant:
  "registry_inv (new_Connection address port user password timeout rx tx)
   \<and> (registry_inv c \<longrightarrow>
        (\<forall>ok c'. createConnection ext env c = Some (ok, c') \<longrightarrow> registry_inv c')
      \<and> (\<forall>ok c'. requestData table g c = (ok, c') \<longrightarrow> registry_inv c')
      \<and> registry_inv (closeConnection c)
      \<and> (\<forall>row c'. read ext c = Some (row, c') \<longrightarrow>
            registry_inv c' \<and> (\<forall>r. row = Some r \<longrightarrow> row_inv r))
      \<and> (\<forall>row c'. processRow ext js c = (row, c') \<longrightarrow>
            registry_inv c' \<and> (\<forall>r. row = Some r \<longrightarrow> row_inv r)))
   \<and> (\<forall>c'. processSchema js c = Some c' \<longrightarrow> registry_inv c')
   \<and> (reachable ext c \<longrightarrow>
        registry_inv c
      \<and> (\<forall>row c'. read ext c = Some (row, c') \<longrightarrow> (\<forall>r. row = Some r \<longrightarrow> row_inv r))
      \<and> (\<forall>row c'. processRow ext js c = (row, c') \<longrightarrow> (\<forall>r. row = Some r \<longrightarrow> row_inv r)))"
proof (intro conjI impI allI)
  show "registry_inv (new_Connection address port user password timeout rx tx)"
    by (simp add: registry_inv_def new_Connection_def)
next
  fix ok c'
  assume "registry_inv c" "createConnection ext env c = Some (ok, c')"
  with createConnection_registry [of ext env c ok c'] show "registry_inv c'"
    by (simp add: registry_def registry_inv_def)
next
  fix ok c'
  assume "registry_inv c" "requestData table g c = (ok, c')"
  with requestData_registry [of table g c ok c'] show "registry_inv c'"
    by (simp add: registry_def registry_inv_def)
next
  assume "registry_inv c"
  with closeConnection_registry [of c] show "registry_inv (closeConnection c)"
    by (simp add: registry_def registry_inv_def)
next
  fix row c'
  assume "registry_inv c" "read ext c = Some (row, c')"
  from read_inv [OF this] show "registry_inv c'"
    by simp
next
  fix row c' r
  assume "registry_inv c" "read ext c = Some (row, c')" "row = Some r"
  with read_inv [of c ext row c'] show "row_inv r"
    by simp
next
  fix row c'
  assume "registry_inv c" "processRow ext js c = (row, c')"
  from processRow_inv [OF this] show "registry_inv c'"
    by simp
next
  fix row c' r
  assume "registry_inv c" "processRow ext js c = (row, c')" "row = Some r"
  with processRow_inv [of c ext js row c'] show "row_inv r"
    by simp
next
  fix c'
  assume "processSchema js c = Some c'"
  then show "registry_inv c'"
    by (rule processSchema_inv)
next
  assume "reachable ext c"
  then show "registry_inv c"
    by (rule reachable_inv)
next
  fix row c' r
  assume "reachable ext c" "read ext c = Some (row, c')" "row = Some r"
  with read_inv [of c ext row c'] reachable_inv [of ext c] show "row_inv r"
    by simp
next
  fix row c' r
  assume "reachable ext c" "processRow ext js c = (row, c')" "row = Some r"
  with processRow_inv [of c ext js row c'] reachable_inv [of ext c] show "row_inv r"
    by simp
qed

theorem registry_invariant_witness:
  "registry_inv announced
   \<and> createConnection example_ext no_address announced =
       Some (False, announced\<lparr>m_error := ''Invalid address: 127.0.0.1''\<rparr>)
   \<and> registry_inv (announced\<lparr>m_error := ''Invalid address: 127.0.0.1''\<rparr>)
   \<and> requestData ''t1'' [] announced = (True, announced\<lparr>syscalls := [SYS_poll (- 1) POLLOUT]\<rparr>)
   \<and> registry_inv (announced\<lparr>syscalls := [SYS_poll (- 1) POLLOUT]\<rparr>)
   \<and> registry_inv (closeConnection announced)
   \<and> processRow example_ext example_event announced = (Some example_row, announced\<lparr>m_error := []\<rparr>)
   \<and> registry_inv (announced\<lparr>m_error := []\<rparr>)
   \<and> row_inv example_row
   \<and> processSchema example_schema fresh = Some announced
   \<and> registry_inv listening
   \<and> (\<exists>c'. read example_ext listening = Some (Some example_row, c') \<and> registry_inv c')
   \<and> reachable example_ext listening"
proof -
  note inv = registry_invariant [where c = announced and ext = example_ext and env = no_address
      and table = "''t1''" and g = "[]" and js = example_event]
  note kept = inv [THEN conjunct2, THEN conjunct1, THEN mp, OF listening_inv(2)]
  note row = example_processRow [OF announced_registry, of example_ext]
  have a1: "registry_inv (announced\<lparr>m_error := ''Invalid address: 127.0.0.1''\<rparr>)"
    by (rule kept [THEN conjunct1, rule_format, OF no_address_createConnection])
  have a2: "registry_inv (announced\<lparr>syscalls := [SYS_poll (- 1) POLLOUT]\<rparr>)"
    by (rule kept [THEN conjunct2, THEN conjunct1, rule_format, OF announced_requestData])
  have a3: "registry_inv (closeConnection announced)"
    by (rule kept [THEN conjunct2, THEN conjunct2, THEN conjunct1])
  note built = kept [THEN conjunct2, THEN conjunct2, THEN conjunct2, THEN conjunct2,
      rule_format, OF row]
  have a4: "registry_inv (announced\<lparr>m_error := []\<rparr>)"
    by (rule built [THEN conjunct1])
  have a5: "row_inv example_row"
    by (rule built [THEN conjunct2, rule_format, OF refl])
  have s: "processSchema example_schema fresh = Some announced"
    using example_schema_fields by (simp add: processSchema_eq announced_def)
  from read_example [OF example_parses listening_stream]
  obtain c' where rd: "read example_ext listening = Some (Some example_row, c')"
    by blast
  note kept' = registry_invariant [where c = listening and ext = example_ext,
      THEN conjunct2, THEN conjunct1, THEN mp, OF listening_inv(1)]
  have a6: "registry_inv c'"
    by (rule kept' [THEN conjunct2, THEN conjunct2, THEN conjunct2, THEN conjunct1,
        rule_format, OF rd, THEN conjunct1])
  have "new_Connection ''127.0.0.1'' 4001 ''maxscale'' ''maxscale'' 10 [] []
      \<lparr>incoming := [Transfer (example_schema_line @ LF # example_event_line @ [LF])],
       outgoing := []\<rparr> = listening"
    by (simp add: listening_def fresh_def new_Connection_def)
  moreover have "reachable example_ext
      (new_Connection ''127.0.0.1'' 4001 ''maxscale'' ''maxscale'' 10 [] [])"
    by (rule reach_new)
  then have "reachable example_ext
      (new_Connection ''127.0.0.1'' 4001 ''maxscale'' ''maxscale'' 10 [] []
        \<lparr>incoming := [Transfer (example_schema_line @ LF # example_event_line @ [LF])],
         outgoing := []\<rparr>)"
    by (rule reach_environment)
  ultimately have a7: "reachable example_ext listening"
    by simp
  note reached = registry_invariant [where c = listening and ext = example_ext,
      THEN conjunct2, THEN conjunct2, THEN conjunct2, THEN mp, OF a7]
  have a9: "registry_inv listening"
    by (rule reached [THEN conjunct1])
  have a10: "row_inv example_row"
    by (rule reached [THEN conjunct2, THEN conjunct1, rule_format, OF rd refl])
  from rd a6 have a8: "\<exists>c'. read example_ext listening = Some (Some example_row, c') \<and>
      registry_inv c'"
    by blast
  show ?thesis
    by (intro conjI) (rule listening_inv(2) no_address_createConnection announced_requestData
        row a1 a2 a3 a4 a10 a9 a7 a8 s)+
qed

section \<open>Closing twice\<close>

text \<open>
  C9 (as amended). After \<open>closeConnection\<close> the socket handle is -1. On a Connection
  whose handle is -1 \<open>closeConnection\<close> returns the state as it is, system calls and
  scripts included: so it is for a second call, for a Connection fresh from the
  constructor, and for one whose \<open>createConnection\<close> failed on the address or on
  \<open>socket\<close>. \<open>closeConnection\<close> always returns.
\<close>

theorem closeConnection_idempotent:
  "closeConnection (closeConnection c) = closeConnection c
   \<and> m_fd (closeConnection c) = - 1
   \<and> (m_fd c = - 1 \<longrightarrow> closeConnection c = c)
   \<and> closeConnection (new_Connection address port user password timeout rx tx) =
       new_Connection address port user password timeout rx tx
   \<and> (createConnection ext env (new_Connection address port user password timeout rx tx) =
        Some (ok, c') \<and> (\<not> inet_aton_ok env \<or> socket_fd env = - 1) \<longrightarrow>
          closeConnection c' = c')"
proof (intro conjI impI)
  show "closeConnection (closeConnection c) = closeConnection c"
    using closeConnection_fd [of c] by (rule closeConnection_closed)
  show "m_fd (closeConnection c) = - 1"
    by (rule closeConnection_fd)
  show "closeConnection c = c" if "m_fd c = - 1"
    using that by (rule closeConnection_closed)
  show "closeConnection (new_Connection address port user password timeout rx tx) =
      new_Connection address port user password timeout rx tx"
    by (simp add: closeConnection_def new_Connection_def)
  show "closeConnection c' = c'"
    if "createConnection ext env (new_Connection address port user password timeout rx tx) =
        Some (ok, c') \<and> (\<not> inet_aton_ok env \<or> socket_fd env = - 1)"
  proof -
    from that createConnection_fd [of ext env _ ok c'] have "m_fd c' = - 1"
      by (auto simp: new_Connection_def)
    then show ?thesis
      by (rule closeConnection_closed)
  qed
qed

theorem closeConnection_idempotent_witness:
  "m_fd fresh = - 1 \<and> closeConnection fresh = fresh
   \<and> closeConnection (closeConnection refused) = closeConnection refused
   \<and> m_fd (closeConnection refused) = - 1
   \<and> createConnection example_ext no_address fresh =
       Some (False, fresh\<lparr>m_error := ''Invalid address: 127.0.0.1''\<rparr>)
   \<and> inet_aton_ok no_address = False
   \<and> closeConnection (fresh\<lparr>m_error := ''Invalid address: 127.0.0.1''\<rparr>) =
       fresh\<lparr>m_error := ''Invalid address: 127.0.0.1''\<rparr>"
proof -
  have fd: "m_fd fresh = - 1"
    by (simp add: fresh_def new_Connection_def)
  have cc: "createConnection example_ext no_address
      (new_Connection ''127.0.0.1'' 4001 ''maxscale'' ''maxscale'' 10 [] []) =
      Some (False, fresh\<lparr>m_error := ''Invalid address: 127.0.0.1''\<rparr>)"
    by (simp add: createConnection_def no_address_def fresh_def new_Connection_def)
  have no: "inet_aton_ok no_address = False"
    by (simp add: no_address_def)
  from closeConnection_idempotent [where c = fresh] fd
  have a: "closeConnection fresh = fresh"
    by blast
  from closeConnection_idempotent [where c = refused]
  have b: "closeConnection (closeConnection refused) = closeConnection refused"
    "m_fd (closeConnection refused) = - 1"
    by blast+
  from closeConnection_idempotent [where ext = example_ext and env = no_address
      and address = "''127.0.0.1''" and port = 4001 and user = "''maxscale''"
      and password = "''maxscale''" and timeout = 10 and rx = "[]" and tx = "[]"
      and ok = False and c' = "fresh\<lparr>m_error := ''Invalid address: 127.0.0.1''\<rparr>"] cc no
  have c: "closeConnection (fresh\<lparr>m_error := ''Invalid address: 127.0.0.1''\<rparr>) =
      fresh\<lparr>m_error := ''Invalid address: 127.0.0.1''\<rparr>"
    by blast
  from fd a b cc no c show ?thesis
    by (simp add: fresh_def)
qed

text \<open>
  As first stated the property fails for a Connection that never connected because
  \<open>connect\<close> was refused: \<open>createConnection\<close> has stored the descriptor by then, so the call
  polls, writes the close message, closes the descriptor and changes the handle.
\<close>

theorem closeConnection_unconnected_counterexample:
  "createConnection example_ext refusing dialing = Some (False, refused)
   \<and> m_fd refused = 3
   \<and> closeConnection refused \<noteq> refused
   \<and> syscalls (closeConnection refused) =
       syscalls refused @ [SYS_poll 3 POLLOUT, SYS_write 3 ''CLOSE'', SYS_close 3]
   \<and> m_fd (closeConnection refused) = - 1"
proof -
  have "m_fd refused = 3" "syscalls refused = [SYS_socket, SYS_connect 3]"
    by (simp_all add: refused_def)
  moreover from this have "closeConnection refused \<noteq> refused"
    "syscalls (closeConnection refused) =
       syscalls refused @ [SYS_poll 3 POLLOUT, SYS_write 3 ''CLOSE'', SYS_close 3]"
    "m_fd (closeConnection refused) = - 1"
    by (auto simp: refused_closeConnection dest: arg_cong [where f = m_fd])
  ultimately show ?thesis
    using refused_createConnection by blast
qed

section \<open>Looking a value up by name\<close>

text \<open>
  C10. A \<open>Row\<close> is only ever built by \<open>processRow\<close>. For such a row, looking up a name that
  is not among its keys indexes the vector of values at its size, which is out of bounds;
  and when the name is the key at index \<open>i\<close>, the lookup returns the value at index \<open>i\<close>.
\<close>

theorem value_by_name:
  assumes "processRow ext js c = (Some r, c')"
  shows "(name \<notin> set (row_keys r) \<longrightarrow>
            find_distance (row_keys r) name = length (row_values r) \<and> value_of r name = None)
       \<and> (\<forall>i < length (row_keys r). row_keys r ! i = name \<longrightarrow>
            value_of r name = Some (row_values r ! i))"
proof -
  note r = processRow_Some(1) [OF assms]
  have absent: "find_distance (row_keys r) name = length (row_values r) \<and> value_of r name = None"
    if "name \<notin> set (row_keys r)"
    using that find_distance_absent [of name "row_keys r"] r
    by (simp add: value_of_def value_at_def)
  have present: "value_of r name = Some (row_values r ! i)"
    if "i < length (row_keys r)" "row_keys r ! i = name" for i
  proof -
    from that have "name \<in> set (row_keys r)"
      by (metis nth_mem)
    from find_distance_present [OF this] that r show ?thesis
      by (simp add: value_of_def value_at_def)
  qed
  from absent present show ?thesis by blast
qed

theorem value_by_name_witness:
  "processRow example_ext example_event announced = (Some example_row, announced\<lparr>m_error := []\<rparr>)
   \<and> ''col2'' \<notin> set (row_keys example_row)
   \<and> find_distance (row_keys example_row) ''col2'' = length (row_values example_row)
   \<and> value_of example_row ''col2'' = None
   \<and> (3::nat) < length (row_keys example_row) \<and> row_keys example_row ! 3 = ''col1''
   \<and> value_of example_row ''col1'' = Some (row_values example_row ! 3)"
proof -
  have absent: "''col2'' \<notin> set (row_keys example_row)"
    by (simp add: example_row_def example_keys_def)
  have present: "(3::nat) < length (row_keys example_row) \<and> row_keys example_row ! 3 = ''col1''"
    by (simp add: example_row_def example_keys_def)
  from value_by_name [OF example_processRow [OF announced_registry], of "''col2''"] absent
  have a: "find_distance (row_keys example_row) ''col2'' = length (row_values example_row)
      \<and> value_of example_row ''col2'' = None"
    by blast
  from value_by_name [OF example_processRow [OF announced_registry], of "''col1''"] present
  have "value_of example_row ''col1'' = Some (row_values example_row ! 3)"
    by blast
  with a absent present example_processRow [OF announced_registry, of example_ext] show ?thesis
    by blast
qed

end
